theory Spec2Isabelle
  imports Main "HOL-Library.Word"
begin

section \<open>Values, exceptions and standard output\<close>

text \<open>
  \<open>int\<close> of the source is a 32-bit two's complement integer: a \<open>32 word\<close> compared
  with the signed orders \<open><s\<close> and \<open>\<le>s\<close>. Signed overflow is undefined in C++; the
  word operations wrap, and no result below depends on a wrapped value.
\<close>

type_synonym int32 = "32 word"

text \<open>What a non-null \<open>std::exception_ptr\<close> refers to; \<open>None\<close> is the null pointer.\<close>

datatype exn = Exn string

type_synonym exception_ptr = "exn option"

text \<open>
  \<open>std::cout\<close> is a list of lines; a line is the list of the items streamed into it
  before its \<open>"\n"\<close>. Every output statement of the coroutine code writes one line.
\<close>

datatype 'v item = Str string | Val 'v | Count int

type_synonym 'v out = "'v item list list"

definition print :: "'v item list \<Rightarrow> 'v out \<Rightarrow> 'v out" where
  "print line out = out @ [line]"

section \<open>Coroutine frames\<close>

text \<open>
  A coroutine body is cut at its suspension points into segments. \<open>entry\<close> is the
  segment from the opening brace, given the parameters; \<open>resumed\<close> is the segment after
  a suspension point, given the locals saved there. A segment ends with a value of type
  \<open>'t\<close> that says how it ended.
\<close>

record ('p, 's, 't) body =
  entry :: "'p \<Rightarrow> 't"
  resumed :: "'s \<Rightarrow> 't"

text \<open>
  Where a coroutine is suspended: at its initial suspend point (the parameters are in
  the frame, no statement of the body has run), at a suspension point of the body, or at
  its final suspend point.
\<close>

datatype ('p, 's) point = Initial 'p | Suspended_at 's | Final

text \<open>What a non-null \<open>std::coroutine_handle<promise_type>\<close> refers to.\<close>

record ('pr, 'p, 's) coroutine =
  promise :: 'pr
  point :: "('p, 's) point"

text \<open>\<open>handle.done()\<close>: suspended at the final suspend point.\<close>

definition handle_done :: "('pr, 'p, 's) coroutine \<Rightarrow> bool" where
  "handle_done c = (case point c of Final \<Rightarrow> True | _ \<Rightarrow> False)"

text \<open>\<open>std::suspend_always\<close> and \<open>std::suspend_never\<close>, and their \<open>await_ready()\<close>.\<close>

datatype suspend = suspend_always | suspend_never

fun suspend_await_ready :: "suspend \<Rightarrow> bool" where
  "suspend_await_ready suspend_always = False"
| "suspend_await_ready suspend_never = True"

text \<open>
  The status of the specification's State Record, read off a frame between two calls
  (\<open>Running\<close> holds only inside a call).
\<close>

datatype status = Created | Running | Suspended | Completed | Failed

definition status_of :: "('p, 's) point \<Rightarrow> exception_ptr \<Rightarrow> status" where
  "status_of pt ex =
     (case pt of
        Initial p \<Rightarrow> Created
      | Suspended_at s \<Rightarrow> Suspended
      | Final \<Rightarrow> (case ex of None \<Rightarrow> Completed | Some e \<Rightarrow> Failed))"

section \<open>Generator\<close>

text \<open>\<open>Generator<T>::promise_type\<close>.\<close>

record 'v Generator_promise =
  current_value :: 'v
  exception :: exception_ptr

definition Generator_initial_suspend :: suspend where
  "Generator_initial_suspend = suspend_always"

definition Generator_final_suspend :: suspend where
  "Generator_final_suspend = suspend_always"

definition Generator_yield_value :: "'v \<Rightarrow> 'v Generator_promise \<Rightarrow> 'v Generator_promise" where
  "Generator_yield_value v pr = pr\<lparr>current_value := v\<rparr>"

definition Generator_return_void :: "'v Generator_promise \<Rightarrow> 'v Generator_promise" where
  "Generator_return_void pr = pr"

definition Generator_unhandled_exception ::
    "exn \<Rightarrow> 'v Generator_promise \<Rightarrow> 'v Generator_promise" where
  "Generator_unhandled_exception e pr = pr\<lparr>exception := Some e\<rparr>"

text \<open>
  How a segment of a generator body ends: at \<open>co_yield v\<close> with the locals to resume
  from, by flowing off the end (or \<open>co_return;\<close>), or with an exception that leaves the
  body. The generator bodies of the source suspend at \<open>co_yield\<close> only.
\<close>

datatype ('v, 's) gen_step = Co_yield 'v 's | Return_void | Gen_throw exn

type_synonym ('v, 'p, 's) gen_body =
  "('p, 's, 'v out \<Rightarrow> ('v, 's) gen_step \<times> 'v out) body"

type_synonym ('v, 'p, 's) Generator = "('v Generator_promise, 'p, 's) coroutine"

text \<open>
  What the language does with the end of a segment: \<open>co_yield v\<close> is
  \<open>co_await promise.yield_value(v)\<close>, a \<open>suspend_always\<close>; the end of the body calls
  \<open>return_void()\<close>, an escaping exception calls \<open>unhandled_exception()\<close>, and both go on
  to \<open>final_suspend()\<close>, a \<open>suspend_always\<close>, so the frame stays at its final suspend
  point until it is destroyed.
\<close>

definition Generator_settle ::
    "('v, 'p, 's) Generator \<Rightarrow> ('v, 's) gen_step \<times> 'v out \<Rightarrow> ('v, 'p, 's) Generator \<times> 'v out" where
  "Generator_settle g r =
     (case r of
        (Co_yield v s, out) \<Rightarrow>
          (g\<lparr>promise := Generator_yield_value v (promise g), point := Suspended_at s\<rparr>, out)
      | (Return_void, out) \<Rightarrow>
          (g\<lparr>promise := Generator_return_void (promise g), point := Final\<rparr>, out)
      | (Gen_throw e, out) \<Rightarrow>
          (g\<lparr>promise := Generator_unhandled_exception e (promise g), point := Final\<rparr>, out))"

text \<open>
  \<open>handle.resume()\<close> runs the next segment. Resuming a coroutine that is suspended at
  its final suspend point has undefined behaviour: \<open>None\<close>, about which nothing is said.
\<close>

definition Generator_resume ::
    "('v, 'p, 's) gen_body \<Rightarrow> ('v, 'p, 's) Generator \<Rightarrow> 'v out \<Rightarrow>
     (('v, 'p, 's) Generator \<times> 'v out) option" where
  "Generator_resume b g out =
     (case point g of
        Initial p \<Rightarrow> Some (Generator_settle g (entry b p out))
      | Suspended_at s \<Rightarrow> Some (Generator_settle g (resumed b s out))
      | Final \<Rightarrow> None)"

text \<open>
  Calling a generator function: the frame is allocated with the parameters, the promise
  is default-initialised (\<open>v0\<close> is whatever the uninitialised \<open>current_value\<close> holds, the
  exception pointer is null), \<open>get_return_object()\<close> wraps the handle, and
  \<open>initial_suspend()\<close> decides whether the body starts before the caller gets the object.
\<close>

definition Generator_call ::
    "('v, 'p, 's) gen_body \<Rightarrow> 'p \<Rightarrow> 'v \<Rightarrow> 'v out \<Rightarrow> ('v, 'p, 's) Generator \<times> 'v out" where
  "Generator_call b p v0 out =
     (let g = \<lparr>promise = \<lparr>current_value = v0, exception = None\<rparr>, point = Initial p\<rparr>
      in if suspend_await_ready Generator_initial_suspend
         then Generator_settle g (entry b p out)
         else (g, out))"

text \<open>
  \<open>Generator::next()\<close>: \<open>Inl e\<close> is \<open>std::rethrow_exception\<close>, \<open>Inr\<close> the returned
  \<open>bool\<close>; the frame and the output after the call come with it.
\<close>

definition Generator_next ::
    "('v, 'p, 's) gen_body \<Rightarrow> ('v, 'p, 's) Generator \<Rightarrow> 'v out \<Rightarrow>
     ((exn + bool) \<times> ('v, 'p, 's) Generator \<times> 'v out) option" where
  "Generator_next b g out =
     (case Generator_resume b g out of
        None \<Rightarrow> None
      | Some (g', out') \<Rightarrow>
          (case Generator_promise.exception (promise g') of
             Some e \<Rightarrow> Some (Inl e, g', out')
           | None \<Rightarrow> Some (Inr (\<not> handle_done g'), g', out')))"

text \<open>\<open>Generator::value()\<close>.\<close>

definition Generator_value :: "('v, 'p, 's) Generator \<Rightarrow> 'v" where
  "Generator_value g = current_value (promise g)"

definition Generator_status :: "('v, 'p, 's) Generator \<Rightarrow> status" where
  "Generator_status g = status_of (point g) (Generator_promise.exception (promise g))"

text \<open>
  A driver that calls \<open>next()\<close> a given number of times and records what each call did:
  the value read with \<open>value()\<close> after a call that returned true, the end of the sequence
  after a call that returned false, the exception of a call that threw. It returns
  these observations with the frame and the output after the last call.
\<close>

datatype 'v observation = Yielded 'v | Exhausted | Raised exn | Undefined_behaviour

definition observe :: "exn + bool \<Rightarrow> ('v, 'p, 's) Generator \<Rightarrow> 'v observation" where
  "observe r g =
     (case r of
        Inl e \<Rightarrow> Raised e
      | Inr ok \<Rightarrow> if ok then Yielded (Generator_value g) else Exhausted)"

fun advance :: "nat \<Rightarrow> ('v, 'p, 's) gen_body \<Rightarrow> ('v, 'p, 's) Generator \<Rightarrow> 'v out \<Rightarrow>
    'v observation list \<times> (('v, 'p, 's) Generator \<times> 'v out) option" where
  "advance 0 b g out = ([], Some (g, out))"
| "advance (Suc n) b g out =
     (case Generator_next b g out of
        None \<Rightarrow> ([Undefined_behaviour], None)
      | Some (r, g', out') \<Rightarrow>
          (case advance n b g' out' of (obs, fin) \<Rightarrow> (observe r g' # obs, fin)))"

subsection \<open>fibonacci\<close>

record fibonacci_locals =
  fib_count :: int32
  fib_a :: int32
  fib_b :: int32
  fib_i :: int32

text \<open>The loop test \<open>i < count\<close> and, inside the loop, the statements up to \<open>co_yield a\<close>.\<close>

definition fibonacci_loop ::
    "fibonacci_locals \<Rightarrow> int32 out \<Rightarrow> (int32, fibonacci_locals) gen_step \<times> int32 out" where
  "fibonacci_loop l out =
     (if fib_i l <s fib_count l
      then (Co_yield (fib_a l) l,
            print [Str ''[Coroutine] About to yield: '', Val (fib_a l)] out)
      else (Return_void, print [Str ''[Coroutine] Fibonacci generator finishing''] out))"

definition fibonacci_entry ::
    "int32 \<Rightarrow> int32 out \<Rightarrow> (int32, fibonacci_locals) gen_step \<times> int32 out" where
  "fibonacci_entry count out =
     fibonacci_loop \<lparr>fib_count = count, fib_a = 0, fib_b = 1, fib_i = 0\<rparr>
       (print [Str ''[Coroutine] Starting Fibonacci generator''] out)"

text \<open>After \<open>co_yield a\<close>: the rest of the loop body, \<open>++i\<close>, and the loop test again.\<close>

definition fibonacci_resumed ::
    "fibonacci_locals \<Rightarrow> int32 out \<Rightarrow> (int32, fibonacci_locals) gen_step \<times> int32 out" where
  "fibonacci_resumed l out =
     (let out1 = print [Str ''[Coroutine] Resumed after yielding '', Val (fib_a l)] out;
          temp = fib_a l;
          l1 = l\<lparr>fib_a := fib_b l\<rparr>;
          l2 = l1\<lparr>fib_b := temp + fib_b l1\<rparr>;
          l3 = l2\<lparr>fib_i := fib_i l2 + 1\<rparr>
      in fibonacci_loop l3 out1)"

definition fibonacci_body :: "(int32, int32, fibonacci_locals) gen_body" where
  "fibonacci_body = \<lparr>entry = fibonacci_entry, resumed = fibonacci_resumed\<rparr>"

definition fibonacci ::
    "int32 \<Rightarrow> int32 \<Rightarrow> int32 out \<Rightarrow> (int32, int32, fibonacci_locals) Generator \<times> int32 out" where
  "fibonacci count v0 out = Generator_call fibonacci_body count v0 out"

subsection \<open>range\<close>

record range_locals =
  range_end :: int32
  range_i :: int32

definition range_loop ::
    "range_locals \<Rightarrow> int32 out \<Rightarrow> (int32, range_locals) gen_step \<times> int32 out" where
  "range_loop l out =
     (if range_i l <s range_end l
      then (Co_yield (range_i l) l, out)
      else (Return_void, print [Str ''[Coroutine] Range complete''] out))"

definition range_entry ::
    "int32 \<times> int32 \<Rightarrow> int32 out \<Rightarrow> (int32, range_locals) gen_step \<times> int32 out" where
  "range_entry p out =
     (case p of (start, end) \<Rightarrow>
        range_loop \<lparr>range_end = end, range_i = start\<rparr>
          (print [Str ''[Coroutine] Range starting from '', Val start, Str '' to '', Val end] out))"

definition range_resumed ::
    "range_locals \<Rightarrow> int32 out \<Rightarrow> (int32, range_locals) gen_step \<times> int32 out" where
  "range_resumed l out = range_loop (l\<lparr>range_i := range_i l + 1\<rparr>) out"

definition range_body :: "(int32, int32 \<times> int32, range_locals) gen_body" where
  "range_body = \<lparr>entry = range_entry, resumed = range_resumed\<rparr>"

definition range_generator ::
    "int32 \<Rightarrow> int32 \<Rightarrow> int32 \<Rightarrow> int32 out \<Rightarrow>
     (int32, int32 \<times> int32, range_locals) Generator \<times> int32 out" where
  "range_generator start end v0 out = Generator_call range_body (start, end) v0 out"

subsection \<open>A generator body that raises\<close>

text \<open>The body \<open>co_yield 7; throw std::runtime_error("boom");\<close> of a \<open>Generator<int>\<close>.\<close>

definition yield_then_throw :: "(int32, unit, unit) gen_body" where
  "yield_then_throw =
     \<lparr>entry = (\<lambda>p out. (Co_yield 7 (), out)),
      resumed = (\<lambda>s out. (Gen_throw (Exn ''boom''), out))\<rparr>"

section \<open>Task\<close>

text \<open>\<open>Task<T>::promise_type\<close>.\<close>

record 'v Task_promise =
  "value" :: 'v
  exception :: exception_ptr

definition Task_initial_suspend :: suspend where
  "Task_initial_suspend = suspend_never"

definition Task_final_suspend :: suspend where
  "Task_final_suspend = suspend_always"

definition Task_return_value ::
    "'v \<Rightarrow> 'v Task_promise \<Rightarrow> 'v out \<Rightarrow> 'v Task_promise \<times> 'v out" where
  "Task_return_value v pr out =
     (pr\<lparr>value := v\<rparr>, print [Str ''[Task Promise] Storing return value: '', Val v] out)"

definition Task_unhandled_exception :: "exn \<Rightarrow> 'v Task_promise \<Rightarrow> 'v Task_promise" where
  "Task_unhandled_exception e pr = pr\<lparr>exception := Some e\<rparr>"

subsection \<open>SleepAwaiter and the threads it starts\<close>

text \<open>\<open>duration\<close> is the \<open>count()\<close> of the \<open>std::chrono::milliseconds\<close>.\<close>

record SleepAwaiter =
  duration :: int

definition sleep_for :: "int \<Rightarrow> SleepAwaiter" where
  "sleep_for ms = \<lparr>duration = ms\<rparr>"

text \<open>
  What a task runs in: standard output, the milliseconds elapsed on the clock, and the
  detached threads started by \<open>await_suspend\<close> for this task's handle that have not yet
  called \<open>handle.resume()\<close>, each with the earliest time at which its
  \<open>std::this_thread::sleep_for(d)\<close> ends. Nothing in \<open>Task\<close> or \<open>SleepAwaiter\<close> waits,
  so no operation below moves the clock, except a thread finishing its sleep.
\<close>

record 'v sys =
  cout :: "'v out"
  now :: int
  threads :: "int list"

definition SleepAwaiter_await_ready :: "SleepAwaiter \<Rightarrow> 'v out \<Rightarrow> bool \<times> 'v out" where
  "SleepAwaiter_await_ready aw out =
     (duration aw \<le> 0, print [Str ''[Awaiter] Checking if sleep is needed...''] out)"

definition SleepAwaiter_await_suspend :: "SleepAwaiter \<Rightarrow> 'v sys \<Rightarrow> 'v sys" where
  "SleepAwaiter_await_suspend aw y =
     y\<lparr>cout := print [Str ''[Awaiter] Suspending for '', Count (duration aw), Str ''ms''] (cout y),
       threads := threads y @ [now y + duration aw]\<rparr>"

definition SleepAwaiter_await_resume :: "SleepAwaiter \<Rightarrow> 'v out \<Rightarrow> 'v out" where
  "SleepAwaiter_await_resume aw out = print [Str ''[Awaiter] Resumed after sleep''] out"

subsection \<open>Running a task\<close>

text \<open>
  How a segment of a task body ends: at \<open>co_await aw\<close> with the locals to resume from,
  at \<open>co_return v\<close>, or with an exception that leaves the body.
\<close>

datatype ('v, 's) task_step = Co_await SleepAwaiter 's | Co_return 'v | Task_throw exn

type_synonym ('v, 'p, 's) task_body =
  "('p, 's, 'v out \<Rightarrow> ('v, 's) task_step \<times> 'v out) body"

type_synonym ('v, 'p, 's) Task = "('v Task_promise, 'p, SleepAwaiter \<times> 's) coroutine"

text \<open>
  What the language does with the end of a segment. \<open>co_return v\<close> calls
  \<open>return_value(v)\<close>, an escaping exception \<open>unhandled_exception()\<close>, and both go on to
  the final suspend point. \<open>co_await aw\<close> asks \<open>aw.await_ready()\<close>: if true the
  coroutine does not suspend, \<open>aw.await_resume()\<close> runs and the body goes on in the same
  call; if false the coroutine is suspended, \<open>aw.await_suspend(handle)\<close> runs and control
  returns to whoever called or resumed the coroutine. A body can go on for ever through
  awaiters that are ready: then the call does not return, which is \<open>None\<close>.
\<close>

partial_function (option) Task_run ::
    "('v, 'p, 's) task_body \<Rightarrow> ('v, 'p, 's) Task \<Rightarrow> ('v, 's) task_step \<times> 'v out \<Rightarrow> 'v sys \<Rightarrow>
     (('v, 'p, 's) Task \<times> 'v sys) option" where
  "Task_run b t r y =
     (case r of
        (Co_return v, out) \<Rightarrow>
          (case Task_return_value v (promise t) out of
             (pr, out1) \<Rightarrow> Some (t\<lparr>promise := pr, point := Final\<rparr>, y\<lparr>cout := out1\<rparr>))
      | (Task_throw e, out) \<Rightarrow>
          Some (t\<lparr>promise := Task_unhandled_exception e (promise t), point := Final\<rparr>,
                y\<lparr>cout := out\<rparr>)
      | (Co_await aw s, out) \<Rightarrow>
          (case SleepAwaiter_await_ready aw out of
             (ready, out1) \<Rightarrow>
               if ready
               then Task_run b t (resumed b s (SleepAwaiter_await_resume aw out1)) y
               else Some (t\<lparr>point := Suspended_at (aw, s)\<rparr>,
                          SleepAwaiter_await_suspend aw (y\<lparr>cout := out1\<rparr>))))"

text \<open>
  \<open>handle.resume()\<close> on a task's frame, from whichever thread: after a suspension at
  \<open>co_await aw\<close> the body goes on with \<open>aw.await_resume()\<close>. At the final suspend point
  it is undefined: \<open>None\<close>.
\<close>

definition Task_resume ::
    "('v, 'p, 's) task_body \<Rightarrow> ('v, 'p, 's) Task \<Rightarrow> 'v sys \<Rightarrow> (('v, 'p, 's) Task \<times> 'v sys) option" where
  "Task_resume b t y =
     (case point t of
        Initial p \<Rightarrow> Task_run b t (entry b p (cout y)) y
      | Suspended_at (aw, s) \<Rightarrow>
          Task_run b t (resumed b s (SleepAwaiter_await_resume aw (cout y))) y
      | Final \<Rightarrow> None)"

text \<open>
  Calling a task function; \<open>v0\<close> is whatever the uninitialised \<open>value\<close> of the promise
  holds.
\<close>

definition Task_call ::
    "('v, 'p, 's) task_body \<Rightarrow> 'p \<Rightarrow> 'v \<Rightarrow> 'v sys \<Rightarrow> (('v, 'p, 's) Task \<times> 'v sys) option" where
  "Task_call b p v0 y =
     (let t = \<lparr>promise = \<lparr>value = v0, exception = None\<rparr>, point = Initial p\<rparr>
      in if suspend_await_ready Task_initial_suspend
         then Task_run b t (entry b p (cout y)) y
         else Some (t, y))"

text \<open>\<open>Task::get()\<close>: \<open>Inl e\<close> is \<open>std::rethrow_exception\<close>, \<open>Inr\<close> the returned value.\<close>

definition Task_get ::
    "('v, 'p, 's) task_body \<Rightarrow> ('v, 'p, 's) Task \<Rightarrow> 'v sys \<Rightarrow>
     ((exn + 'v) \<times> ('v, 'p, 's) Task \<times> 'v sys) option" where
  "Task_get b t y =
     (case (if \<not> handle_done t then Task_resume b t y else Some (t, y)) of
        None \<Rightarrow> None
      | Some (t', y') \<Rightarrow>
          (case Task_promise.exception (promise t') of
             Some e \<Rightarrow> Some (Inl e, t', y')
           | None \<Rightarrow> Some (Inr (Task_promise.value (promise t')), t', y')))"

text \<open>\<open>Task::is_ready()\<close>.\<close>

definition Task_is_ready :: "('v, 'p, 's) Task \<Rightarrow> bool" where
  "Task_is_ready t = handle_done t"

definition Task_status :: "('v, 'p, 's) Task \<Rightarrow> status" where
  "Task_status t = status_of (point t) (Task_promise.exception (promise t))"

text \<open>
  The lambda of the thread started by \<open>await_suspend\<close>, for the thread that was started
  first: its sleep ends (the clock is at its wake-up time or later), it prints and calls
  \<open>handle.resume()\<close>.
\<close>

definition thread_body ::
    "('v, 'p, 's) task_body \<Rightarrow> ('v, 'p, 's) Task \<Rightarrow> 'v sys \<Rightarrow> (('v, 'p, 's) Task \<times> 'v sys) option" where
  "thread_body b t y =
     (case threads y of
        [] \<Rightarrow> Some (t, y)
      | w # ws \<Rightarrow>
          Task_resume b t
            (y\<lparr>cout := print [Str ''[Awaiter Thread] Sleep complete, resuming coroutine''] (cout y),
               now := max (now y) w,
               threads := ws\<rparr>))"

subsection \<open>compute_answer\<close>

text \<open>The loop \<open>for (int i = 1; i <= 10; ++i) result += i\<close>, from any \<open>result\<close> and \<open>i\<close>.\<close>

function compute_answer_loop :: "int32 \<Rightarrow> int32 \<Rightarrow> int32" where
  "compute_answer_loop result i =
     (if i \<le>s 10 then compute_answer_loop (result + i) (i + 1) else result)"
  by pat_completeness auto
termination
proof (relation "measure (\<lambda>(result, i). nat (11 - sint i))")
  show "wf (measure (\<lambda>(result, i). nat (11 - sint i)))"
    by simp
next
  fix result i :: int32
  assume le: "i \<le>s 10"
  have small: "sint i \<le> 10"
    using le by (simp add: word_sle_eq)
  have lo: "- (2 ^ 31) \<le> sint i"
    using sint_ge [of i] by simp
  have "sint (i + 1) = signed_take_bit 31 (sint i + 1)"
    by (simp add: sint_word_ariths)
  also have "\<dots> = sint i + 1"
    using lo small by (intro signed_take_bit_int_eq_self) simp_all
  finally have "sint (i + 1) = sint i + 1" .
  then show "((result + i, i + 1), (result, i)) \<in> measure (\<lambda>(result, i). nat (11 - sint i))"
    using small by simp
qed

text \<open>
  \<open>compute_answer\<close> has no parameter and no suspension point: its body is one segment.
  No frame of it is ever suspended inside the body, so \<open>resumed\<close> is never run; it is
  given the same segment.
\<close>

definition compute_answer_entry :: "unit \<Rightarrow> int32 out \<Rightarrow> (int32, unit) task_step \<times> int32 out" where
  "compute_answer_entry p out =
     (let out1 = print [Str ''[Task] Starting computation...''] out;
          out2 = print [Str ''[Task] Performing complex calculations...''] out1;
          result = compute_answer_loop 0 1;
          out3 = print [Str ''[Task] Computation complete!''] out2
      in (Co_return result, out3))"

definition compute_answer_body :: "(int32, unit, unit) task_body" where
  "compute_answer_body =
     \<lparr>entry = compute_answer_entry, resumed = (\<lambda>s. compute_answer_entry ())\<rparr>"

definition compute_answer ::
    "int32 \<Rightarrow> int32 sys \<Rightarrow> ((int32, unit, unit) Task \<times> int32 sys) option" where
  "compute_answer v0 y = Task_call compute_answer_body () v0 y"

subsection \<open>delayed_computation\<close>

definition delayed_computation_entry ::
    "unit \<Rightarrow> int32 out \<Rightarrow> (int32, unit) task_step \<times> int32 out" where
  "delayed_computation_entry p out =
     (let out1 = print [Str ''[Delayed Task] Starting...''] out;
          out2 = print [Str ''[Delayed Task] About to sleep for 500ms''] out1
      in (Co_await (sleep_for 500) (), out2))"

text \<open>After \<open>co_await sleep_for(500ms)\<close>.\<close>

definition delayed_computation_resumed ::
    "unit \<Rightarrow> int32 out \<Rightarrow> (int32, unit) task_step \<times> int32 out" where
  "delayed_computation_resumed s out =
     (Co_return 42, print [Str ''[Delayed Task] Woke up! Computing result...''] out)"

definition delayed_computation_body :: "(int32, unit, unit) task_body" where
  "delayed_computation_body =
     \<lparr>entry = delayed_computation_entry, resumed = delayed_computation_resumed\<rparr>"

definition delayed_computation ::
    "int32 \<Rightarrow> int32 sys \<Rightarrow> ((int32, unit, unit) Task \<times> int32 sys) option" where
  "delayed_computation v0 y = Task_call delayed_computation_body () v0 y"

subsection \<open>A task body that raises\<close>

text \<open>The body \<open>co_await sleep_for(5ms); throw std::runtime_error("boom");\<close> of a
  \<open>Task<int>\<close>.\<close>

definition sleep_then_throw :: "(int32, unit, unit) task_body" where
  "sleep_then_throw =
     \<lparr>entry = (\<lambda>p out. (Co_await (sleep_for 5) (), out)),
      resumed = (\<lambda>s out. (Task_throw (Exn ''boom''), out))\<rparr>"

text \<open>The body \<open>co_await sleep_for(0ms); throw std::runtime_error("boom");\<close> of a
  \<open>Task<int>\<close>.\<close>

definition no_sleep_then_throw :: "(int32, unit, unit) task_body" where
  "no_sleep_then_throw =
     \<lparr>entry = (\<lambda>p out. (Co_await (sleep_for 0) (), out)),
      resumed = (\<lambda>s out. (Task_throw (Exn ''boom''), out))\<rparr>"

text \<open>
  A task body raises: continued from the end of a segment, it throws \<open>e\<close> before it
  next suspends, having written \<open>out\<close>. Either the segment itself ends with the
  exception, or it ends at a \<open>co_await\<close> whose awaiter is ready and the body raises
  further on.
\<close>

inductive Task_raises ::
    "('v, 'p, 's) task_body \<Rightarrow> ('v, 's) task_step \<times> 'v out \<Rightarrow> exn \<Rightarrow> 'v out \<Rightarrow> bool"
  for b :: "('v, 'p, 's) task_body" where
  throw: "Task_raises b (Task_throw e, out) e out"
| ready: "duration aw \<le> 0 \<Longrightarrow>
     Task_raises b
       (resumed b s (SleepAwaiter_await_resume aw (snd (SleepAwaiter_await_ready aw out)))) e out' \<Longrightarrow>
     Task_raises b (Co_await aw s, out) e out'"

section \<open>Ownership of the handle\<close>

text \<open>
  The special member functions of \<open>Generator\<close> and of \<open>Task\<close> are the same text up to
  the name of the struct, and are modelled once, over a store: the coroutine frames that
  are alive, by address; the \<open>handle\<close> member of every \<open>Generator\<close> or \<open>Task\<close> object
  within its lifetime, by the address of the object (\<open>None\<close> inside is \<open>nullptr\<close>); and the
  log of the calls of \<open>handle.destroy()\<close>. Frame addresses are not reused.
\<close>

type_synonym addr = nat

type_synonym obj = nat

record 'f memory =
  frames :: "addr \<rightharpoonup> 'f"
  fresh :: addr
  handle :: "obj \<rightharpoonup> addr option"
  destroyed :: "addr list"

definition empty_memory :: "'f memory" where
  "empty_memory = \<lparr>frames = Map.empty, fresh = 0, handle = Map.empty, destroyed = []\<rparr>"

text \<open>The \<open>handle\<close> member of an object.\<close>

definition handle_of :: "'f memory \<Rightarrow> obj \<Rightarrow> addr option" where
  "handle_of m x = (case handle m x of Some h \<Rightarrow> h | None \<Rightarrow> None)"

text \<open>\<open>handle.destroy()\<close>.\<close>

definition handle_destroy :: "addr \<Rightarrow> 'f memory \<Rightarrow> 'f memory" where
  "handle_destroy a m = m\<lparr>frames := (frames m)(a := None), destroyed := a # destroyed m\<rparr>"

text \<open>The constructor from a handle: \<open>handle(h)\<close>.\<close>

definition ctor :: "obj \<Rightarrow> addr option \<Rightarrow> 'f memory \<Rightarrow> 'f memory" where
  "ctor this h m = m\<lparr>handle := (handle m)(this \<mapsto> h)\<rparr>"

text \<open>
  Calling a coroutine function: the frame is allocated, and \<open>get_return_object()\<close>
  constructs the returned object from the handle of that frame.
\<close>

definition coroutine_call :: "obj \<Rightarrow> 'f \<Rightarrow> 'f memory \<Rightarrow> 'f memory" where
  "coroutine_call this f m =
     ctor this (Some (fresh m)) (m\<lparr>frames := (frames m)(fresh m \<mapsto> f), fresh := Suc (fresh m)\<rparr>)"

text \<open>The destructor: \<open>if (handle) handle.destroy();\<close>, and the object is gone.\<close>

definition dtor :: "obj \<Rightarrow> 'f memory \<Rightarrow> 'f memory" where
  "dtor this m =
     (let m1 = (case handle_of m this of Some a \<Rightarrow> handle_destroy a m | None \<Rightarrow> m)
      in m1\<lparr>handle := (handle m1)(this := None)\<rparr>)"

text \<open>The move constructor: \<open>handle(other.handle)\<close>, then \<open>other.handle = nullptr\<close>.\<close>

definition move_ctor :: "obj \<Rightarrow> obj \<Rightarrow> 'f memory \<Rightarrow> 'f memory" where
  "move_ctor this other m =
     (let m1 = m\<lparr>handle := (handle m)(this \<mapsto> handle_of m other)\<rparr>
      in m1\<lparr>handle := (handle m1)(other \<mapsto> None)\<rparr>)"

text \<open>The move assignment operator.\<close>

definition move_assign :: "obj \<Rightarrow> obj \<Rightarrow> 'f memory \<Rightarrow> 'f memory" where
  "move_assign this other m =
     (if this \<noteq> other
      then let m1 = (case handle_of m this of Some a \<Rightarrow> handle_destroy a m | None \<Rightarrow> m);
               m2 = m1\<lparr>handle := (handle m1)(this \<mapsto> handle_of m1 other)\<rparr>
           in m2\<lparr>handle := (handle m2)(other \<mapsto> None)\<rparr>
      else m)"

text \<open>
  The steps of a program on \<open>Generator\<close> or \<open>Task\<close> objects. The copy constructor and the
  copy assignment operator are deleted, so there is no step that copies; the constructor
  from a handle is called by \<open>get_return_object()\<close> only. A step on an
  object outside its lifetime, or constructing an object where one lives, is not a step
  of a program: \<open>None\<close>.
\<close>

datatype 'f op = Call obj 'f | Move obj obj | Move_assign obj obj | Destroy obj

fun exec :: "'f op \<Rightarrow> 'f memory \<Rightarrow> 'f memory option" where
  "exec (Call this f) m =
     (if this \<in> dom (handle m) then None else Some (coroutine_call this f m))"
| "exec (Move this other) m =
     (if this \<in> dom (handle m) \<or> other \<notin> dom (handle m) then None
      else Some (move_ctor this other m))"
| "exec (Move_assign this other) m =
     (if this \<notin> dom (handle m) \<or> other \<notin> dom (handle m) then None
      else Some (move_assign this other m))"
| "exec (Destroy this) m =
     (if this \<notin> dom (handle m) then None else Some (dtor this m))"

fun run :: "'f op list \<Rightarrow> 'f memory \<Rightarrow> 'f memory option" where
  "run [] m = Some m"
| "run (x # xs) m = (case exec x m of None \<Rightarrow> None | Some m' \<Rightarrow> run xs m')"

text \<open>
  The state of the store that the steps keep: every non-null handle of a live object
  refers to a live frame; every live frame is referred to by the handle of some live
  object, and of one only; no frame has been destroyed twice, none that is alive has
  been destroyed, and every frame ever allocated is alive or has been destroyed.
\<close>

definition single_owner :: "'f memory \<Rightarrow> bool" where
  "single_owner m \<longleftrightarrow>
     (\<forall>x a. handle m x = Some (Some a) \<longrightarrow> a \<in> dom (frames m)) \<and>
     (\<forall>a. a \<in> dom (frames m) \<longrightarrow> (\<exists>x. handle m x = Some (Some a))) \<and>
     (\<forall>x x' a. handle m x = Some (Some a) \<and> handle m x' = Some (Some a) \<longrightarrow> x = x') \<and>
     distinct (destroyed m) \<and>
     set (destroyed m) \<inter> dom (frames m) = {} \<and>
     dom (frames m) \<union> set (destroyed m) = {a. a < fresh m}"

section \<open>Unfolding the definitions\<close>

lemmas Generator_defs = Generator_call_def Generator_next_def Generator_resume_def
  Generator_settle_def Generator_initial_suspend_def Generator_yield_value_def
  Generator_return_void_def Generator_unhandled_exception_def Generator_value_def
  Generator_status_def status_of_def handle_done_def observe_def

lemmas fibonacci_defs = fibonacci_def fibonacci_body_def fibonacci_entry_def
  fibonacci_resumed_def fibonacci_loop_def print_def

lemmas range_defs = range_generator_def range_body_def range_entry_def range_resumed_def
  range_loop_def print_def

lemmas Task_defs = Task_call_def Task_get_def Task_resume_def Task_initial_suspend_def
  Task_return_value_def Task_unhandled_exception_def Task_is_ready_def Task_status_def
  SleepAwaiter_await_ready_def SleepAwaiter_await_suspend_def SleepAwaiter_await_resume_def
  sleep_for_def

lemmas compute_answer_defs = compute_answer_def compute_answer_body_def compute_answer_entry_def

lemmas delayed_computation_defs = delayed_computation_def delayed_computation_body_def
  delayed_computation_entry_def delayed_computation_resumed_def

section \<open>Generators\<close>

text \<open>
  What the end of a segment does to a frame whose exception pointer is null: a yield
  leaves it suspended, the end of the body completed, an exception failed; the last two
  leave \<open>current_value\<close> as it was.
\<close>

lemma Generator_settle_result:
  assumes "Generator_promise.exception (promise g) = None"
    and "Generator_settle g r = (g', out')"
  shows "(\<exists>v s. fst r = Co_yield v s \<and> Generator_status g' = Suspended \<and> \<not> handle_done g' \<and>
            Generator_promise.exception (promise g') = None) \<or>
         (fst r = Return_void \<and> Generator_status g' = Completed \<and> handle_done g' \<and>
            Generator_promise.exception (promise g') = None \<and>
            Generator_value g' = Generator_value g) \<or>
         (\<exists>e. fst r = Gen_throw e \<and> Generator_status g' = Failed \<and> handle_done g' \<and>
            Generator_promise.exception (promise g') = Some e \<and>
            Generator_value g' = Generator_value g)"
  using assms
  by (cases r; cases "fst r")
     (auto simp: Generator_settle_def Generator_yield_value_def Generator_return_void_def
       Generator_unhandled_exception_def Generator_status_def status_of_def handle_done_def
       Generator_value_def)

text \<open>
  The exception pointer of a generator is null as long as the coroutine is not at its
  final suspend point: this holds of a new generator and is kept by \<open>next()\<close>. The
  generators a program can hold and still resume are therefore those with a null
  exception pointer that are not at their final suspend point.
\<close>

lemma Generator_call_exception:
  "Generator_promise.exception (promise (fst (Generator_call b p v0 out))) = None"
  by (simp add: Generator_call_def Generator_initial_suspend_def)

lemma Generator_next_exception:
  assumes "Generator_promise.exception (promise g) = None"
    and "Generator_next b g out = Some (r, g', out')"
    and "\<not> handle_done g'"
  shows "Generator_promise.exception (promise g') = None"
proof -
  from assms(2) have res: "Generator_resume b g out = Some (g', out')"
    by (auto simp: Generator_next_def split: option.splits prod.splits)
  then obtain r' where "Generator_settle g r' = (g', out')"
    by (cases "point g") (auto simp: Generator_resume_def)
  from Generator_settle_result [OF assms(1) this] assms(3) show ?thesis
    by auto
qed

text \<open>What one \<open>next()\<close> does, by the way the segment it resumes ends.\<close>

lemma Generator_next_segment:
  assumes ok: "Generator_promise.exception (promise g) = None"
    and ran: "(point g = Initial p \<and> seg = entry b p out) \<or>
              (point g = Suspended_at s \<and> seg = resumed b s out)"
  shows "Generator_next b g out =
     Some (case seg of
        (Co_yield v s', out') \<Rightarrow>
          (Inr True, g\<lparr>promise := Generator_yield_value v (promise g), point := Suspended_at s'\<rparr>, out')
      | (Return_void, out') \<Rightarrow> (Inr False, g\<lparr>point := Final\<rparr>, out')
      | (Gen_throw e, out') \<Rightarrow>
          (Inl e, g\<lparr>promise := Generator_unhandled_exception e (promise g), point := Final\<rparr>, out'))"
proof -
  obtain st out1 where seg: "seg = (st, out1)"
    by (cases seg)
  from ran seg have run:
    "(point g = Initial p \<and> entry b p out = (st, out1)) \<or>
     (point g = Suspended_at s \<and> resumed b s out = (st, out1))"
    by auto
  from ok run show ?thesis
    by (cases st)
       (auto simp: seg Generator_next_def Generator_resume_def Generator_settle_def
          Generator_yield_value_def Generator_return_void_def Generator_unhandled_exception_def
          handle_done_def)
qed

text \<open>
  C2. For every generator that can be resumed (at its initial suspend point or at a
  \<open>co_yield\<close>, its exception pointer null), \<open>next()\<close> resumes the body: it runs the
  segment \<open>seg\<close> that starts where the generator is suspended, once. If the segment
  ends at \<open>co_yield v\<close>, \<open>next()\<close> returns true, \<open>value()\<close> is \<open>v\<close> and the status is
  Suspended. If it ends the body, \<open>next()\<close> returns false and the status is Completed.
  If it raises \<open>e\<close>, \<open>next()\<close> rethrows \<open>e\<close>, which is captured in the promise, and the
  status is Failed. So \<open>next()\<close> returns true exactly when the status has become
  Suspended, false exactly when it has become Completed, and rethrows exactly when it
  has become Failed.
\<close>

theorem Generator_next_result:
  assumes "Generator_promise.exception (promise g) = None"
    and "(point g = Initial p \<and> seg = entry b p out) \<or>
         (point g = Suspended_at s \<and> seg = resumed b s out)"
  shows "case Generator_next b g out of
           None \<Rightarrow> False
         | Some (r, g', out') \<Rightarrow>
             Generator_resume b g out = Some (g', out') \<and>
             out' = snd seg \<and>
             (case fst seg of
                Co_yield v s' \<Rightarrow>
                  r = Inr True \<and> point g' = Suspended_at s' \<and> Generator_value g' = v \<and>
                  Generator_promise.exception (promise g') = None
              | Return_void \<Rightarrow>
                  r = Inr False \<and> point g' = Final \<and> Generator_value g' = Generator_value g \<and>
                  Generator_promise.exception (promise g') = None
              | Gen_throw e \<Rightarrow>
                  r = Inl e \<and> point g' = Final \<and> Generator_value g' = Generator_value g \<and>
                  Generator_promise.exception (promise g') = Some e) \<and>
             (r = Inr True \<longleftrightarrow> Generator_status g' = Suspended) \<and>
             (r = Inr False \<longleftrightarrow> Generator_status g' = Completed) \<and>
             ((\<exists>e. r = Inl e) \<longleftrightarrow> Generator_status g' = Failed) \<and>
             (\<forall>e. r = Inl e \<longrightarrow> Generator_promise.exception (promise g') = Some e)"
proof -
  obtain st out1 where seg: "seg = (st, out1)"
    by (cases seg)
  from assms(2) seg have run:
    "(point g = Initial p \<and> entry b p out = (st, out1)) \<or>
     (point g = Suspended_at s \<and> resumed b s out = (st, out1))"
    by auto
  from assms(1) run have res: "Generator_resume b g out = Some (Generator_settle g (st, out1))"
    by (auto simp: Generator_resume_def)
  from assms(1) show ?thesis
    using Generator_next_segment [OF assms]
    by (cases st)
       (simp_all add: seg res Generator_settle_def Generator_yield_value_def
          Generator_return_void_def Generator_unhandled_exception_def Generator_value_def
          Generator_status_def status_of_def)
qed

theorem Generator_next_result_witness:
  "Generator_next yield_then_throw
       \<lparr>promise = \<lparr>current_value = 0, exception = None\<rparr>, point = Initial ()\<rparr> [] =
     Some (Inr True,
           \<lparr>promise = \<lparr>current_value = 7, exception = None\<rparr>, point = Suspended_at ()\<rparr>, []) \<and>
   Generator_status (\<lparr>promise = \<lparr>current_value = 7 :: int32, exception = None\<rparr>,
       point = Suspended_at () :: (unit, unit) point\<rparr>) = Suspended \<and>
   Generator_next yield_then_throw
       \<lparr>promise = \<lparr>current_value = 7, exception = None\<rparr>, point = Suspended_at ()\<rparr> [] =
     Some (Inl (Exn ''boom''),
           \<lparr>promise = \<lparr>current_value = 7, exception = Some (Exn ''boom'')\<rparr>, point = Final\<rparr>, []) \<and>
   Generator_status (\<lparr>promise = \<lparr>current_value = 7 :: int32, exception = Some (Exn ''boom'')\<rparr>,
       point = Final :: (unit, unit) point\<rparr>) = Failed \<and>
   Generator_next range_body
       \<lparr>promise = \<lparr>current_value = 9, exception = None\<rparr>,
         point = Suspended_at \<lparr>range_end = 10, range_i = 9\<rparr>\<rparr> [] =
     Some (Inr False,
           \<lparr>promise = \<lparr>current_value = 9, exception = None\<rparr>, point = Final\<rparr>,
           [[Str ''[Coroutine] Range complete'']])"
proof -
  have a: "Generator_promise.exception (\<lparr>current_value = 0 :: int32, exception = None\<rparr>) = None"
    by simp
  show ?thesis
    using
      Generator_next_result [where b = yield_then_throw and out = "[]" and p = "()" and s = "()"
        and g = "\<lparr>promise = \<lparr>current_value = 0, exception = None\<rparr>, point = Initial ()\<rparr>"
        and seg = "(Co_yield 7 (), [])"]
      Generator_next_result [where b = yield_then_throw and out = "[]" and p = "()" and s = "()"
        and g = "\<lparr>promise = \<lparr>current_value = 7, exception = None\<rparr>, point = Suspended_at ()\<rparr>"
        and seg = "(Gen_throw (Exn ''boom''), [])"]
      Generator_next_result [where b = range_body and out = "[]" and p = "(0, 10)"
        and s = "\<lparr>range_end = 10, range_i = 9\<rparr>"
        and g = "\<lparr>promise = \<lparr>current_value = 9, exception = None\<rparr>,
                  point = Suspended_at \<lparr>range_end = 10, range_i = 9\<rparr>\<rparr>"
        and seg = "(Return_void, [[Str ''[Coroutine] Range complete'']])"]
    by (simp add: Generator_defs yield_then_throw_def range_defs word_sless_alt)
qed

text \<open>
  C6. The first eight \<open>next()\<close> calls on \<open>fibonacci(7)\<close>: seven return true, with
  \<open>value()\<close> reading 0, 1, 1, 2, 3, 5, 8 in this order, and the eighth returns false.
\<close>

theorem fibonacci_seven_terms:
  "fst (advance 8 fibonacci_body (fst (fibonacci 7 v0 out)) (snd (fibonacci 7 v0 out))) =
     [Yielded 0, Yielded 1, Yielded 1, Yielded 2, Yielded 3, Yielded 5, Yielded 8, Exhausted]"
  by (simp add: Generator_defs fibonacci_defs numeral_eq_Suc word_sless_alt Let_def)

text \<open>
  C10. When \<open>start \<ge> end\<close> (as signed integers) the first \<open>next()\<close> on
  \<open>range(start, end)\<close> returns false and leaves the generator Completed, so no value is
  ever yielded; the same holds of \<open>fibonacci(0)\<close>.
\<close>

theorem empty_range_and_fibonacci:
  assumes "end \<le>s start"
  shows "(case range_generator start end v0 out of (g, out1) \<Rightarrow>
            map_option (\<lambda>(r, g', out'). (r, Generator_status g'))
              (Generator_next range_body g out1)) = Some (Inr False, Completed) \<and>
         (case range_generator start end v0 out of (g, out1) \<Rightarrow>
            fst (advance 1 range_body g out1)) = [Exhausted] \<and>
         (case fibonacci 0 v0 out of (g, out1) \<Rightarrow>
            map_option (\<lambda>(r, g', out'). (r, Generator_status g'))
              (Generator_next fibonacci_body g out1)) = Some (Inr False, Completed) \<and>
         (case fibonacci 0 v0 out of (g, out1) \<Rightarrow>
            fst (advance 1 fibonacci_body g out1)) = [Exhausted]"
  using assms
  by (simp add: Generator_defs range_defs fibonacci_defs word_sless_alt word_sle_eq)

theorem empty_range_and_fibonacci_witness:
  "(5 :: int32) \<le>s 10 \<and>
   (case range_generator 10 5 0 [] of (g, out1) \<Rightarrow>
      map_option (\<lambda>(r, g', out'). (r, Generator_status g'))
        (Generator_next range_body g out1)) = Some (Inr False, Completed) \<and>
   (case range_generator 10 5 0 [] of (g, out1) \<Rightarrow>
      fst (advance 1 range_body g out1)) = [Exhausted] \<and>
   (case fibonacci 0 0 [] of (g, out1) \<Rightarrow>
      map_option (\<lambda>(r, g', out'). (r, Generator_status g'))
        (Generator_next fibonacci_body g out1)) = Some (Inr False, Completed) \<and>
   (case fibonacci 0 0 [] of (g, out1) \<Rightarrow>
      fst (advance 1 fibonacci_body g out1)) = [Exhausted]"
proof -
  have h: "(5 :: int32) \<le>s 10"
    by (simp add: word_sle_eq)
  show ?thesis
    using h empty_range_and_fibonacci [OF h, of 0 "[]"] by simp
qed

text \<open>
  C8. Counterexample: after the eighth \<open>next()\<close> on \<open>fibonacci(7)\<close> has returned false
  and the generator is Completed, \<open>value()\<close> does not fail: it returns 8, the value of the
  last \<open>co_yield\<close>.
\<close>

theorem value_after_last_next:
  "last (fst (advance 8 fibonacci_body (fst (fibonacci 7 0 [])) (snd (fibonacci 7 0 [])))) = Exhausted \<and>
   map_option (\<lambda>(g, out). (Generator_status g, Generator_value g))
     (snd (advance 8 fibonacci_body (fst (fibonacci 7 0 [])) (snd (fibonacci 7 0 []))))
     = Some (Completed, 8)"
  by (simp add: Generator_defs fibonacci_defs numeral_eq_Suc word_sless_alt Let_def)

text \<open>
  C8, as amended. \<open>value()\<close> checks nothing and cannot fail: after a \<open>next()\<close> that
  returned false it returns what it returned before that call, and on a new generator it
  returns whatever the uninitialised \<open>current_value\<close> holds. \<open>next()\<close> checks nothing
  either: on a generator at its final suspend point it calls \<open>handle.resume()\<close>, which is
  undefined behaviour and not a reported failure.
\<close>

theorem Generator_value_unchecked:
  "(Generator_next b g out = Some (Inr False, g', out') \<longrightarrow> Generator_value g' = Generator_value g) \<and>
   Generator_value (fst (Generator_call b p v0 out)) = v0 \<and>
   (handle_done g \<longrightarrow> Generator_next b g out = None)"
proof -
  have "Generator_value g' = Generator_value g"
    if nx: "Generator_next b g out = Some (Inr False, g', out')"
  proof -
    from nx have res: "Generator_resume b g out = Some (g', out')"
      and ex: "Generator_promise.exception (promise g') = None" and dn: "handle_done g'"
      by (auto simp: Generator_next_def split: option.splits prod.splits)
    from res obtain r where st: "Generator_settle g r = (g', out')"
      by (cases "point g") (auto simp: Generator_resume_def)
    from st ex dn show ?thesis
      by (cases r; cases "fst r")
         (auto simp: Generator_settle_def Generator_yield_value_def Generator_return_void_def
           Generator_unhandled_exception_def handle_done_def Generator_value_def)
  qed
  then show ?thesis
    by (auto simp: Generator_defs split: point.splits)
qed

theorem Generator_value_unchecked_witness:
  "Generator_next range_body (fst (range_generator 10 5 3 [])) (snd (range_generator 10 5 3 [])) =
     Some (Inr False,
           \<lparr>promise = \<lparr>current_value = 3, exception = None\<rparr>, point = Final\<rparr>,
           [[Str ''[Coroutine] Range starting from '', Val 10, Str '' to '', Val 5],
            [Str ''[Coroutine] Range complete'']]) \<and>
   Generator_value (\<lparr>promise = \<lparr>current_value = 3, exception = None\<rparr>, point = Final\<rparr>
      :: (int32, int32 \<times> int32, range_locals) Generator) = 3 \<and>
   handle_done (\<lparr>promise = \<lparr>current_value = 3, exception = None\<rparr>, point = Final\<rparr>
      :: (int32, int32 \<times> int32, range_locals) Generator) \<and>
   Generator_next range_body
     \<lparr>promise = \<lparr>current_value = 3, exception = None\<rparr>, point = Final\<rparr> [] = None"
proof -
  have h1: "Generator_next range_body (fst (range_generator 10 5 3 []))
      (snd (range_generator 10 5 3 [])) =
     Some (Inr False,
           \<lparr>promise = \<lparr>current_value = 3, exception = None\<rparr>, point = Final\<rparr>,
           [[Str ''[Coroutine] Range starting from '', Val 10, Str '' to '', Val 5],
            [Str ''[Coroutine] Range complete'']])"
    by (simp add: Generator_defs range_defs word_sless_alt)
  have h2: "handle_done (\<lparr>promise = \<lparr>current_value = 3, exception = None\<rparr>, point = Final\<rparr>
      :: (int32, int32 \<times> int32, range_locals) Generator)"
    by (simp add: handle_done_def)
  have v: "Generator_value (fst (range_generator 10 5 3 [])) = (3 :: int32)"
    by (simp add: Generator_defs range_defs)
  show ?thesis
    using h1 h2 v
      Generator_value_unchecked [where b = range_body
        and g = "fst (range_generator 10 5 3 [])" and out = "snd (range_generator 10 5 3 [])"
        and g' = "\<lparr>promise = \<lparr>current_value = 3, exception = None\<rparr>, point = Final\<rparr>"
        and out' = "[[Str ''[Coroutine] Range starting from '', Val 10, Str '' to '', Val 5],
            [Str ''[Coroutine] Range complete'']]"]
      Generator_value_unchecked [where b = range_body
        and g = "\<lparr>promise = \<lparr>current_value = 3, exception = None\<rparr>, point = Final\<rparr>"
        and out = "[]"]
    by simp
qed

section \<open>Tasks\<close>

text \<open>One step of \<open>Task_run\<close>, for each way a segment can end.\<close>

lemma Task_run_Co_return:
  "Task_run b t (Co_return v, out) y =
     Some (t\<lparr>promise := fst (Task_return_value v (promise t) out), point := Final\<rparr>,
           y\<lparr>cout := snd (Task_return_value v (promise t) out)\<rparr>)"
  by (subst Task_run.simps) (simp add: Task_return_value_def)

lemma Task_run_Task_throw:
  "Task_run b t (Task_throw e, out) y =
     Some (t\<lparr>promise := Task_unhandled_exception e (promise t), point := Final\<rparr>, y\<lparr>cout := out\<rparr>)"
  by (subst Task_run.simps) simp

lemma Task_run_Co_await:
  "Task_run b t (Co_await aw s, out) y =
     (if duration aw \<le> 0
      then Task_run b t
             (resumed b s (SleepAwaiter_await_resume aw (snd (SleepAwaiter_await_ready aw out)))) y
      else Some (t\<lparr>point := Suspended_at (aw, s)\<rparr>,
                 SleepAwaiter_await_suspend aw (y\<lparr>cout := snd (SleepAwaiter_await_ready aw out)\<rparr>)))"
  by (subst Task_run.simps) (simp add: SleepAwaiter_await_ready_def)


lemma compute_answer_loop_value: "compute_answer_loop 0 1 = 55"
  by (simp add: word_sle_eq)



text \<open>
  C4. \<open>compute_answer()\<close> has run to completion, printing its four lines, when the call
  returns. \<open>get()\<close> then returns 55 and changes neither the frame nor the output, so a
  second \<open>get()\<close> returns 55 again and the body has run once. In general \<open>get()\<close> on a
  Completed task returns the stored value and leaves the frame and the system as they
  were: it does not resume the coroutine.
\<close>

theorem compute_answer_get_twice:
  "(case compute_answer v0 y of
      None \<Rightarrow> False
    | Some (t, y1) \<Rightarrow>
        Task_status t = Completed \<and>
        cout y1 = cout y @ [[Str ''[Task] Starting computation...''],
                            [Str ''[Task] Performing complex calculations...''],
                            [Str ''[Task] Computation complete!''],
                            [Str ''[Task Promise] Storing return value: '', Val 55]] \<and>
        Task_get compute_answer_body t y1 = Some (Inr 55, t, y1) \<and>
        (case Task_get compute_answer_body t y1 of
           None \<Rightarrow> False
         | Some (r1, t1, y2) \<Rightarrow>
             Task_get compute_answer_body t1 y2 = Some (Inr 55, t1, y2) \<and> y2 = y1)) \<and>
   (Task_status t = Completed \<longrightarrow>
      Task_get b t y' = Some (Inr (Task_promise.value (promise t)), t, y'))"
  by (auto simp: compute_answer_defs Task_defs Task_run_Co_return compute_answer_loop_value
      print_def handle_done_def status_of_def Let_def
      simp del: compute_answer_loop.simps split: point.splits option.splits)

theorem compute_answer_get_twice_witness:
  "Task_status \<lparr>promise = \<lparr>value = 55 :: int32, exception = None\<rparr>,
                point = Final :: (unit, SleepAwaiter \<times> unit) point\<rparr> = Completed \<and>
   Task_get compute_answer_body \<lparr>promise = \<lparr>value = 55, exception = None\<rparr>, point = Final\<rparr>
       \<lparr>cout = [], now = 0, threads = []\<rparr> =
     Some (Inr 55, \<lparr>promise = \<lparr>value = 55, exception = None\<rparr>, point = Final\<rparr>,
           \<lparr>cout = [], now = 0, threads = []\<rparr>)"
proof -
  have h: "Task_status \<lparr>promise = \<lparr>value = 55 :: int32, exception = None\<rparr>,
                point = Final :: (unit, SleepAwaiter \<times> unit) point\<rparr> = Completed"
    by (simp add: Task_status_def status_of_def)
  show ?thesis
    using h compute_answer_get_twice
      [where ?v0.0 = 0 and y = "\<lparr>cout = [], now = 0, threads = []\<rparr>"
         and t = "\<lparr>promise = \<lparr>value = 55, exception = None\<rparr>, point = Final\<rparr>"
         and b = compute_answer_body and y' = "\<lparr>cout = [], now = 0, threads = []\<rparr>"]
    by simp
qed

text \<open>
  C1. The claim is that \<open>get()\<close> on \<open>delayed_computation()\<close> returns 42 only after the
  500 ms have elapsed and the thread started by \<open>await_suspend\<close> has resumed the
  coroutine, with one resume per suspension. The code does otherwise. After the call the
  task is Suspended and the thread sleeps until 500. \<open>get()\<close> called then finds the
  coroutine not done and resumes it itself: it returns 42 with the clock still at 0 and
  the thread still pending, and the resume that the thread will do when it wakes is a
  second one, on a coroutine at its final suspend point, which is undefined.
\<close>

theorem delayed_computation_get_does_not_wait:
  "(case delayed_computation v0 \<lparr>cout = [], now = 0, threads = []\<rparr> of
      None \<Rightarrow> False
    | Some (t, y) \<Rightarrow>
        Task_status t = Suspended \<and> now y = 0 \<and> threads y = [500] \<and>
        (case Task_get delayed_computation_body t y of
           None \<Rightarrow> False
         | Some (r, t', y') \<Rightarrow>
             r = Inr 42 \<and> Task_status t' = Completed \<and> now y' = 0 \<and> threads y' = [500] \<and>
             thread_body delayed_computation_body t' y' = None))"
  by (simp add: delayed_computation_defs Task_defs Task_run_Co_await Task_run_Co_return
      print_def handle_done_def status_of_def thread_body_def Let_def)

text \<open>
  C7. \<open>await_ready()\<close> of \<open>sleep_for(d)\<close> is true exactly when \<open>d \<le> 0\<close>. Then
  \<open>co_await\<close> does not suspend: the body goes on in the same call, after
  \<open>await_resume()\<close>, in a system where no thread has been started. When \<open>0 < d\<close> the
  coroutine is suspended at the \<open>co_await\<close> and one thread is started, which sleeps
  until \<open>now + d\<close>.
\<close>

theorem sleep_for_readiness:
  "fst (SleepAwaiter_await_ready (sleep_for d) out) = (d \<le> 0) \<and>
   (d \<le> 0 \<longrightarrow>
      Task_run b t (Co_await (sleep_for d) s, out) y =
        Task_run b t
          (resumed b s
             (SleepAwaiter_await_resume (sleep_for d)
                (snd (SleepAwaiter_await_ready (sleep_for d) out)))) y) \<and>
   (0 < d \<longrightarrow>
      Task_run b t (Co_await (sleep_for d) s, out) y =
        Some (t\<lparr>point := Suspended_at (sleep_for d, s)\<rparr>,
              y\<lparr>cout := cout (SleepAwaiter_await_suspend (sleep_for d)
                          (y\<lparr>cout := snd (SleepAwaiter_await_ready (sleep_for d) out)\<rparr>)),
                threads := threads y @ [now y + d]\<rparr>))"
  by (simp add: Task_run_Co_await)
     (simp add: SleepAwaiter_await_ready_def SleepAwaiter_await_suspend_def sleep_for_def)

theorem sleep_for_readiness_witness:
  "(0 :: int) \<le> 0 \<and>
   Task_run delayed_computation_body
       \<lparr>promise = \<lparr>value = 0 :: int32, exception = None\<rparr>, point = Initial ()\<rparr>
       (Co_await (sleep_for 0) (), []) \<lparr>cout = [], now = 0, threads = []\<rparr> =
     Some (\<lparr>promise = \<lparr>value = 42, exception = None\<rparr>, point = Final\<rparr>,
           \<lparr>cout = [[Str ''[Awaiter] Checking if sleep is needed...''],
                    [Str ''[Awaiter] Resumed after sleep''],
                    [Str ''[Delayed Task] Woke up! Computing result...''],
                    [Str ''[Task Promise] Storing return value: '', Val 42]],
             now = 0, threads = []\<rparr>) \<and>
   (0 :: int) < 500 \<and>
   Task_run delayed_computation_body
       \<lparr>promise = \<lparr>value = 0 :: int32, exception = None\<rparr>, point = Initial ()\<rparr>
       (Co_await (sleep_for 500) (), []) \<lparr>cout = [], now = 0, threads = []\<rparr> =
     Some (\<lparr>promise = \<lparr>value = 0, exception = None\<rparr>, point = Suspended_at (sleep_for 500, ())\<rparr>,
           \<lparr>cout = [[Str ''[Awaiter] Checking if sleep is needed...''],
                    [Str ''[Awaiter] Suspending for '', Count 500, Str ''ms'']],
             now = 0, threads = [500]\<rparr>)"
  using
    sleep_for_readiness [where d = 0 and out = "[]" and b = delayed_computation_body
      and t = "\<lparr>promise = \<lparr>value = 0 :: int32, exception = None\<rparr>, point = Initial ()\<rparr>"
      and s = "()" and y = "\<lparr>cout = [], now = 0, threads = []\<rparr>"]
    sleep_for_readiness [where d = 500 and out = "[]" and b = delayed_computation_body
      and t = "\<lparr>promise = \<lparr>value = 0 :: int32, exception = None\<rparr>, point = Initial ()\<rparr>"
      and s = "()" and y = "\<lparr>cout = [], now = 0, threads = []\<rparr>"]
  by (simp add: delayed_computation_defs Task_run_Co_return Task_defs print_def)

section \<open>Failures of the body\<close>

text \<open>
  C5. Counterexample: the generator with the body \<open>co_yield 7; throw ...\<close>. The first
  \<open>next()\<close> returns true with 7; the second, which resumes the segment that throws,
  rethrows the exception itself; the generator is then Failed and \<open>value()\<close> does not
  rethrow: it returns 7.
\<close>

theorem failed_generator_value_does_not_rethrow:
  "fst (advance 2 yield_then_throw (fst (Generator_call yield_then_throw () 0 [])) []) =
     [Yielded 7, Raised (Exn ''boom'')] \<and>
   map_option (\<lambda>(g, out). (Generator_status g, Generator_value g))
     (snd (advance 2 yield_then_throw (fst (Generator_call yield_then_throw () 0 [])) [])) =
     Some (Failed, 7)"
  by (simp add: Generator_defs yield_then_throw_def numeral_eq_Suc)

text \<open>A body that raises leaves its failure in the promise, and \<open>Task_run\<close> returns.\<close>

lemma Task_run_raises:
  assumes "Task_raises b r e out"
  shows "Task_run b t r y =
     Some (t\<lparr>promise := (promise t)\<lparr>exception := Some e\<rparr>, point := Final\<rparr>, y\<lparr>cout := out\<rparr>)"
  using assms
proof (induction rule: Task_raises.induct)
  case (throw e out)
  show ?case
    by (simp add: Task_run_Task_throw Task_unhandled_exception_def)
next
  case (ready aw s out e out')
  then show ?case
    by (simp add: Task_run_Co_await)
qed

text \<open>
  C5, as amended. A task body that raises in the run started by the call of the task
  function, directly or after awaiters that were ready, leaves the failure in the promise
  and the call returns. One that raises in a run resumed by \<open>get()\<close> has the failure
  captured and rethrown by that \<open>get()\<close>; one that raises in a run resumed by the sleep
  thread has it captured, and the thread's resume returns. \<open>is_ready()\<close> is true of
  every task at its final suspend point, failed or not. \<open>get()\<close> on a Failed task
  rethrows the captured failure and changes nothing, so every later \<open>get()\<close> rethrows it
  again. For a generator, the \<open>next()\<close> that resumed the raising segment rethrows the
  failure, which is captured in the promise, and \<open>value()\<close> still returns what it
  returned before.
\<close>

theorem captured_failure:
  "(Task_raises b (entry b p (cout y)) e out \<longrightarrow>
      Task_call b p v0 y =
        Some (\<lparr>promise = \<lparr>value = v0, exception = Some e\<rparr>, point = Final\<rparr>, y\<lparr>cout := out\<rparr>)) \<and>
   (point t = Suspended_at (aw, s) \<and>
    Task_raises b (resumed b s (SleepAwaiter_await_resume aw (cout y))) e out \<longrightarrow>
      Task_resume b t y =
        Some (t\<lparr>promise := (promise t)\<lparr>exception := Some e\<rparr>, point := Final\<rparr>, y\<lparr>cout := out\<rparr>) \<and>
      Task_get b t y =
        Some (Inl e, t\<lparr>promise := (promise t)\<lparr>exception := Some e\<rparr>, point := Final\<rparr>,
              y\<lparr>cout := out\<rparr>)) \<and>
   (point t = Suspended_at (aw, s) \<and> threads y = w # ws \<and>
    Task_raises b
      (resumed b s
         (SleepAwaiter_await_resume aw
            (print [Str ''[Awaiter Thread] Sleep complete, resuming coroutine''] (cout y))))
      e out \<longrightarrow>
      thread_body b t y =
        Some (t\<lparr>promise := (promise t)\<lparr>exception := Some e\<rparr>, point := Final\<rparr>,
              y\<lparr>cout := out, now := max (now y) w, threads := ws\<rparr>)) \<and>
   (point t = Final \<longrightarrow> Task_is_ready t) \<and>
   (point t = Final \<and> Task_promise.exception (promise t) = Some e \<longrightarrow>
      Task_status t = Failed \<and> Task_get b t y = Some (Inl e, t, y)) \<and>
   (Generator_promise.exception (promise g) = None \<and>
    ((point g = Initial gp \<and> entry gb gp gout = (Gen_throw e, gout')) \<or>
     (point g = Suspended_at gs \<and> resumed gb gs gout = (Gen_throw e, gout'))) \<longrightarrow>
      (case Generator_next gb g gout of
         None \<Rightarrow> False
       | Some (r, g', out') \<Rightarrow>
           r = Inl e \<and> out' = gout' \<and> Generator_promise.exception (promise g') = Some e \<and>
           Generator_status g' = Failed \<and> Generator_value g' = Generator_value g))"
proof -
  have A: "Task_raises b (entry b p (cout y)) e out \<longrightarrow>
      Task_call b p v0 y =
        Some (\<lparr>promise = \<lparr>value = v0, exception = Some e\<rparr>, point = Final\<rparr>, y\<lparr>cout := out\<rparr>)"
    by (auto simp: Task_call_def Task_initial_suspend_def Task_run_raises)
  have B: "point t = Suspended_at (aw, s) \<and>
    Task_raises b (resumed b s (SleepAwaiter_await_resume aw (cout y))) e out \<longrightarrow>
      Task_resume b t y =
        Some (t\<lparr>promise := (promise t)\<lparr>exception := Some e\<rparr>, point := Final\<rparr>, y\<lparr>cout := out\<rparr>) \<and>
      Task_get b t y =
        Some (Inl e, t\<lparr>promise := (promise t)\<lparr>exception := Some e\<rparr>, point := Final\<rparr>,
              y\<lparr>cout := out\<rparr>)"
    by (auto simp: Task_get_def Task_resume_def handle_done_def Task_run_raises)
  have W: "point t = Suspended_at (aw, s) \<and> threads y = w # ws \<and>
    Task_raises b
      (resumed b s
         (SleepAwaiter_await_resume aw
            (print [Str ''[Awaiter Thread] Sleep complete, resuming coroutine''] (cout y))))
      e out \<longrightarrow>
      thread_body b t y =
        Some (t\<lparr>promise := (promise t)\<lparr>exception := Some e\<rparr>, point := Final\<rparr>,
              y\<lparr>cout := out, now := max (now y) w, threads := ws\<rparr>)"
    by (auto simp: thread_body_def Task_resume_def Task_run_raises)
  have C: "point t = Final \<longrightarrow> Task_is_ready t"
    by (simp add: Task_is_ready_def handle_done_def)
  have D: "point t = Final \<and> Task_promise.exception (promise t) = Some e \<longrightarrow>
      Task_status t = Failed \<and> Task_get b t y = Some (Inl e, t, y)"
    by (simp add: Task_status_def status_of_def Task_get_def handle_done_def)
  have E: "case Generator_next gb g gout of
         None \<Rightarrow> False
       | Some (r, g', out') \<Rightarrow>
           r = Inl e \<and> out' = gout' \<and> Generator_promise.exception (promise g') = Some e \<and>
           Generator_status g' = Failed \<and> Generator_value g' = Generator_value g"
    if ok: "Generator_promise.exception (promise g) = None"
      and ran: "(point g = Initial gp \<and> entry gb gp gout = (Gen_throw e, gout')) \<or>
                (point g = Suspended_at gs \<and> resumed gb gs gout = (Gen_throw e, gout'))"
  proof -
    from ran have "(point g = Initial gp \<and> (Gen_throw e, gout') = entry gb gp gout) \<or>
        (point g = Suspended_at gs \<and> (Gen_throw e, gout') = resumed gb gs gout)"
      by auto
    from Generator_next_segment [OF ok this] show ?thesis
      by (simp add: Generator_unhandled_exception_def Generator_status_def status_of_def
          Generator_value_def)
  qed
  from A B W C D E show ?thesis
    by blast
qed

theorem captured_failure_witness:
  "Task_call no_sleep_then_throw () 0 \<lparr>cout = [], now = 0, threads = []\<rparr> =
     Some (\<lparr>promise = \<lparr>value = 0, exception = Some (Exn ''boom'')\<rparr>, point = Final\<rparr>,
           \<lparr>cout = [[Str ''[Awaiter] Checking if sleep is needed...''],
                    [Str ''[Awaiter] Resumed after sleep'']],
             now = 0, threads = []\<rparr>) \<and>
   Task_get sleep_then_throw
       \<lparr>promise = \<lparr>value = 0, exception = None\<rparr>, point = Suspended_at (sleep_for 5, ())\<rparr>
       \<lparr>cout = [], now = 0, threads = [5]\<rparr> =
     Some (Inl (Exn ''boom''),
           \<lparr>promise = \<lparr>value = 0, exception = Some (Exn ''boom'')\<rparr>, point = Final\<rparr>,
           \<lparr>cout = [[Str ''[Awaiter] Resumed after sleep'']], now = 0, threads = [5]\<rparr>) \<and>
   thread_body sleep_then_throw
       \<lparr>promise = \<lparr>value = 0, exception = None\<rparr>, point = Suspended_at (sleep_for 5, ())\<rparr>
       \<lparr>cout = [], now = 0, threads = [5]\<rparr> =
     Some (\<lparr>promise = \<lparr>value = 0, exception = Some (Exn ''boom'')\<rparr>, point = Final\<rparr>,
           \<lparr>cout = [[Str ''[Awaiter Thread] Sleep complete, resuming coroutine''],
                    [Str ''[Awaiter] Resumed after sleep'']],
             now = 5, threads = []\<rparr>) \<and>
   Task_is_ready (\<lparr>promise = \<lparr>value = 0 :: int32, exception = Some (Exn ''boom'')\<rparr>,
                   point = Final :: (unit, SleepAwaiter \<times> unit) point\<rparr>) \<and>
   Task_status (\<lparr>promise = \<lparr>value = 0 :: int32, exception = Some (Exn ''boom'')\<rparr>,
                 point = Final :: (unit, SleepAwaiter \<times> unit) point\<rparr>) = Failed \<and>
   Task_get sleep_then_throw
       \<lparr>promise = \<lparr>value = 0, exception = Some (Exn ''boom'')\<rparr>, point = Final\<rparr>
       \<lparr>cout = [], now = 0, threads = [5]\<rparr> =
     Some (Inl (Exn ''boom''),
           \<lparr>promise = \<lparr>value = 0, exception = Some (Exn ''boom'')\<rparr>, point = Final\<rparr>,
           \<lparr>cout = [], now = 0, threads = [5]\<rparr>) \<and>
   Generator_next yield_then_throw
       \<lparr>promise = \<lparr>current_value = 7, exception = None\<rparr>, point = Suspended_at ()\<rparr> [] =
     Some (Inl (Exn ''boom''),
           \<lparr>promise = \<lparr>current_value = 7, exception = Some (Exn ''boom'')\<rparr>, point = Final\<rparr>, []) \<and>
   Generator_value (\<lparr>promise = \<lparr>current_value = 7 :: int32, exception = Some (Exn ''boom'')\<rparr>,
                     point = Final :: (unit, unit) point\<rparr>) = 7"
proof -
  have r1: "Task_raises no_sleep_then_throw (entry no_sleep_then_throw () []) (Exn ''boom'')
      [[Str ''[Awaiter] Checking if sleep is needed...''], [Str ''[Awaiter] Resumed after sleep'']]"
    by (auto simp: no_sleep_then_throw_def sleep_for_def SleepAwaiter_await_ready_def
        SleepAwaiter_await_resume_def print_def intro!: Task_raises.intros)
  have r2: "Task_raises sleep_then_throw
      (resumed sleep_then_throw () (SleepAwaiter_await_resume (sleep_for 5) [])) (Exn ''boom'')
      [[Str ''[Awaiter] Resumed after sleep'']]"
    by (auto simp: sleep_then_throw_def SleepAwaiter_await_resume_def print_def
        intro!: Task_raises.intros)
  have r3: "Task_raises sleep_then_throw
      (resumed sleep_then_throw ()
         (SleepAwaiter_await_resume (sleep_for 5)
            (print [Str ''[Awaiter Thread] Sleep complete, resuming coroutine''] [])))
      (Exn ''boom'')
      [[Str ''[Awaiter Thread] Sleep complete, resuming coroutine''],
       [Str ''[Awaiter] Resumed after sleep'']]"
    by (auto simp: sleep_then_throw_def SleepAwaiter_await_resume_def print_def
        intro!: Task_raises.intros)
  have g1: "resumed yield_then_throw () [] = (Gen_throw (Exn ''boom''), [])"
    by (simp add: yield_then_throw_def)
  note inst = captured_failure [where p = "()" and ?v0.0 = "0 :: int32" and e = "Exn ''boom''"
        and aw = "sleep_for 5" and s = "()" and w = 5 and ws = "[]"
        and g = "\<lparr>promise = \<lparr>current_value = 7, exception = None\<rparr>, point = Suspended_at ()\<rparr>"
        and gb = yield_then_throw and gout = "[]" and gout' = "[]" and gp = "()" and gs = "()"]
  show ?thesis
    using r1 r2 r3 g1
      inst [where b = no_sleep_then_throw
        and y = "\<lparr>cout = [], now = 0, threads = []\<rparr>"
        and out = "[[Str ''[Awaiter] Checking if sleep is needed...''],
                    [Str ''[Awaiter] Resumed after sleep'']]"
        and t = "\<lparr>promise = \<lparr>value = 0, exception = Some (Exn ''boom'')\<rparr>, point = Final\<rparr>"]
      inst [where b = sleep_then_throw
        and t = "\<lparr>promise = \<lparr>value = 0 :: int32, exception = None\<rparr>,
                  point = Suspended_at (sleep_for 5, ())\<rparr>"
        and y = "\<lparr>cout = [], now = 0, threads = [5]\<rparr>"
        and out = "[[Str ''[Awaiter] Resumed after sleep'']]"]
      inst [where b = sleep_then_throw
        and t = "\<lparr>promise = \<lparr>value = 0 :: int32, exception = None\<rparr>,
                  point = Suspended_at (sleep_for 5, ())\<rparr>"
        and y = "\<lparr>cout = [], now = 0, threads = [5]\<rparr>"
        and out = "[[Str ''[Awaiter Thread] Sleep complete, resuming coroutine''],
                    [Str ''[Awaiter] Resumed after sleep'']]"]
      inst [where b = sleep_then_throw
        and t = "\<lparr>promise = \<lparr>value = 0 :: int32, exception = Some (Exn ''boom'')\<rparr>,
                  point = Final\<rparr>"
        and y = "\<lparr>cout = [], now = 0, threads = [5]\<rparr>" and out = "[]"]
    by (simp add: Generator_defs yield_then_throw_def)
qed

section \<open>Ownership\<close>

lemma single_ownerD:
  assumes "single_owner m"
  shows "\<And>x a. handle m x = Some (Some a) \<Longrightarrow> a \<in> dom (frames m)"
    and "\<And>a. a \<in> dom (frames m) \<Longrightarrow> \<exists>x. handle m x = Some (Some a)"
    and "\<And>x x' a. handle m x = Some (Some a) \<Longrightarrow> handle m x' = Some (Some a) \<Longrightarrow> x = x'"
    and "distinct (destroyed m)"
    and "set (destroyed m) \<inter> dom (frames m) = {}"
    and "dom (frames m) \<union> set (destroyed m) = {a. a < fresh m}"
  using assms unfolding single_owner_def by blast+

lemma single_owner_empty: "single_owner empty_memory"
  by (simp add: single_owner_def empty_memory_def)

lemma handle_of_Some: "handle_of m x = Some a \<longleftrightarrow> handle m x = Some (Some a)"
  by (auto simp: handle_of_def split: option.splits)

lemma handle_destroy_fields:
  "handle (handle_destroy a m) = handle m"
  "frames (handle_destroy a m) = (frames m)(a := None)"
  "destroyed (handle_destroy a m) = a # destroyed m"
  "fresh (handle_destroy a m) = fresh m"
  "handle_of (handle_destroy a m) x = handle_of m x"
  by (simp_all add: handle_destroy_def handle_of_def)

text \<open>An owner releases its frame and is left with no handle, or ceases to exist.\<close>

lemma single_owner_release:
  assumes inv: "single_owner m" and own: "handle m x = Some (Some a)"
    and h': "handle m' = (handle m)(x := h)" and hh: "h = None \<or> h = Some None"
    and f': "frames m' = (frames m)(a := None)"
    and d': "destroyed m' = a # destroyed m"
    and n': "fresh m' = fresh m"
  shows "single_owner m'"
proof -
  note I = single_ownerD [OF inv]
  have a_live: "a \<in> dom (frames m)" using I(1) own by blast
  have J1: "\<forall>y b. handle m' y = Some (Some b) \<longrightarrow> b \<in> dom (frames m')"
    using I(1) I(3) own hh by (auto simp: h' f' split: if_splits)
  have J2: "\<forall>b. b \<in> dom (frames m') \<longrightarrow> (\<exists>y. handle m' y = Some (Some b))"
  proof (intro allI impI)
    fix b assume "b \<in> dom (frames m')"
    then have ba: "b \<noteq> a" and "b \<in> dom (frames m)" by (auto simp: f' split: if_splits)
    then obtain y where y: "handle m y = Some (Some b)" using I(2) by blast
    with own ba have "y \<noteq> x" by auto
    with y show "\<exists>y. handle m' y = Some (Some b)" by (auto simp: h')
  qed
  have J3: "\<forall>y y' b. handle m' y = Some (Some b) \<and> handle m' y' = Some (Some b) \<longrightarrow> y = y'"
    using I(3) hh by (auto simp: h' split: if_splits)
  have J4: "distinct (destroyed m')"
    using I(4) I(5) a_live by (auto simp: d')
  have J5: "set (destroyed m') \<inter> dom (frames m') = {}"
    using I(5) by (auto simp: d' f')
  have J6: "dom (frames m') \<union> set (destroyed m') = {a. a < fresh m'}"
    using I(6) a_live by (auto simp: d' f' n')
  from J1 J2 J3 J4 J5 J6 show ?thesis
    unfolding single_owner_def by blast
qed

text \<open>An object that holds no frame takes the handle of another, which is left null.\<close>

lemma single_owner_transfer:
  assumes inv: "single_owner m" and null: "handle m x = None \<or> handle m x = Some None"
    and other: "handle m z = Some h" and ne: "x \<noteq> z"
    and h': "handle m' = (handle m)(x \<mapsto> h, z \<mapsto> None)"
    and f': "frames m' = frames m"
    and d': "destroyed m' = destroyed m"
    and n': "fresh m' = fresh m"
  shows "single_owner m'"
proof -
  note I = single_ownerD [OF inv]
  have J1: "\<forall>y b. handle m' y = Some (Some b) \<longrightarrow> b \<in> dom (frames m')"
    using I(1) other by (auto simp: h' f' split: if_splits)
  have J2: "\<forall>b. b \<in> dom (frames m') \<longrightarrow> (\<exists>y. handle m' y = Some (Some b))"
  proof (intro allI impI)
    fix b assume "b \<in> dom (frames m')"
    then obtain y where y: "handle m y = Some (Some b)" using I(2) by (auto simp: f')
    with null have yx: "y \<noteq> x" by auto
    show "\<exists>y. handle m' y = Some (Some b)"
    proof (cases "y = z")
      case True
      with y other have "h = Some b" by simp
      with ne have "handle m' x = Some (Some b)" by (simp add: h')
      then show ?thesis by blast
    next
      case False
      with yx y have "handle m' y = Some (Some b)" by (simp add: h')
      then show ?thesis by blast
    qed
  qed
  have J3: "\<forall>y y' b. handle m' y = Some (Some b) \<and> handle m' y' = Some (Some b) \<longrightarrow> y = y'"
  proof (intro allI impI, elim conjE)
    fix y y' b
    assume 1: "handle m' y = Some (Some b)" and 2: "handle m' y' = Some (Some b)"
    have src: "\<And>w. handle m' w = Some (Some b) \<Longrightarrow>
        (w = x \<and> handle m z = Some (Some b)) \<or> (w \<noteq> x \<and> w \<noteq> z \<and> handle m w = Some (Some b))"
      using other by (auto simp: h' split: if_splits)
    from src [OF 1] src [OF 2] show "y = y'"
      using I(3) by blast
  qed
  have J4: "distinct (destroyed m')" using I(4) by (simp add: d')
  have J5: "set (destroyed m') \<inter> dom (frames m') = {}" using I(5) by (simp add: d' f')
  have J6: "dom (frames m') \<union> set (destroyed m') = {a. a < fresh m'}"
    using I(6) by (simp add: d' f' n')
  from J1 J2 J3 J4 J5 J6 show ?thesis
    unfolding single_owner_def by blast
qed

lemma single_owner_call:
  assumes inv: "single_owner m" and new: "this \<notin> dom (handle m)"
  shows "single_owner (coroutine_call this f m)"
proof -
  note I = single_ownerD [OF inv]
  let ?m' = "coroutine_call this f m"
  have h': "handle ?m' = (handle m)(this \<mapsto> Some (fresh m))"
    and f': "frames ?m' = (frames m)(fresh m \<mapsto> f)"
    and d': "destroyed ?m' = destroyed m"
    and n': "fresh ?m' = Suc (fresh m)"
    by (simp_all add: coroutine_call_def ctor_def)
  from I(6) have "fresh m \<notin> dom (frames m) \<union> set (destroyed m)" by simp
  then have nl: "fresh m \<notin> dom (frames m)" and nd: "fresh m \<notin> set (destroyed m)" by simp_all
  have no: "\<And>y. handle m y \<noteq> Some (Some (fresh m))" using I(1) nl by blast
  have J1: "\<forall>y b. handle ?m' y = Some (Some b) \<longrightarrow> b \<in> dom (frames ?m')"
    using I(1) by (auto simp: h' f' split: if_splits)
  have J2: "\<forall>b. b \<in> dom (frames ?m') \<longrightarrow> (\<exists>y. handle ?m' y = Some (Some b))"
  proof (intro allI impI)
    fix b assume b: "b \<in> dom (frames ?m')"
    show "\<exists>y. handle ?m' y = Some (Some b)"
    proof (cases "b = fresh m")
      case True
      then have "handle ?m' this = Some (Some b)" by (simp add: h')
      then show ?thesis by blast
    next
      case False
      with b have "b \<in> dom (frames m)" by (auto simp: f')
      then obtain y where y: "handle m y = Some (Some b)" using I(2) by blast
      with new have "y \<noteq> this" by auto
      with y have "handle ?m' y = Some (Some b)" by (simp add: h')
      then show ?thesis by blast
    qed
  qed
  have J3: "\<forall>y y' b. handle ?m' y = Some (Some b) \<and> handle ?m' y' = Some (Some b) \<longrightarrow> y = y'"
    using I(3) no by (auto simp: h' split: if_splits)
  have J4: "distinct (destroyed ?m')" using I(4) by (simp add: d')
  have J5: "set (destroyed ?m') \<inter> dom (frames ?m') = {}"
    using I(5) nd by (auto simp: d' f')
  have J6: "dom (frames ?m') \<union> set (destroyed ?m') = {a. a < fresh ?m'}"
    using I(6) by (auto simp: d' f' n' less_Suc_eq)
  from J1 J2 J3 J4 J5 J6 show ?thesis
    unfolding single_owner_def by blast
qed

text \<open>An object with a null handle ceases to exist.\<close>

lemma single_owner_forget:
  assumes inv: "single_owner m" and null: "handle m x = Some None"
    and h': "handle m' = (handle m)(x := None)"
    and f': "frames m' = frames m" and d': "destroyed m' = destroyed m"
    and n': "fresh m' = fresh m"
  shows "single_owner m'"
proof -
  note I = single_ownerD [OF inv]
  have J1: "\<forall>y b. handle m' y = Some (Some b) \<longrightarrow> b \<in> dom (frames m')"
    using I(1) by (auto simp: h' f' split: if_splits)
  have J2: "\<forall>b. b \<in> dom (frames m') \<longrightarrow> (\<exists>y. handle m' y = Some (Some b))"
  proof (intro allI impI)
    fix b assume "b \<in> dom (frames m')"
    then obtain y where y: "handle m y = Some (Some b)" using I(2) by (auto simp: f')
    with null have "y \<noteq> x" by auto
    with y show "\<exists>y. handle m' y = Some (Some b)" by (auto simp: h')
  qed
  have J3: "\<forall>y y' b. handle m' y = Some (Some b) \<and> handle m' y' = Some (Some b) \<longrightarrow> y = y'"
    using I(3) by (auto simp: h' split: if_splits)
  from J1 J2 J3 I(4) I(5) I(6) show ?thesis
    unfolding single_owner_def by (simp add: f' d' n')
qed

lemma single_owner_dtor:
  assumes inv: "single_owner m" and live: "this \<in> dom (handle m)"
  shows "single_owner (dtor this m)"
proof (cases "handle_of m this")
  case None
  with live have null: "handle m this = Some None"
    by (auto simp: handle_of_def split: option.splits)
  show ?thesis
    by (rule single_owner_forget [OF inv null]) (simp_all add: dtor_def None)
next
  case (Some a)
  then have own: "handle m this = Some (Some a)" by (simp add: handle_of_Some)
  show ?thesis
    by (rule single_owner_release [OF inv own, where h = None])
       (simp_all add: dtor_def Some handle_destroy_fields)
qed

lemma single_owner_move_ctor:
  assumes inv: "single_owner m" and new: "this \<notin> dom (handle m)"
    and live: "other \<in> dom (handle m)"
  shows "single_owner (move_ctor this other m)"
proof -
  from live obtain h where other: "handle m other = Some h" by blast
  from new live have ne: "this \<noteq> other" by blast
  from new have none: "handle m this = None \<or> handle m this = Some None" by blast
  show ?thesis
    by (rule single_owner_transfer [OF inv none other ne])
       (simp_all add: move_ctor_def handle_of_def other)
qed

lemma single_owner_move_assign:
  assumes inv: "single_owner m" and live: "this \<in> dom (handle m)"
    and live': "other \<in> dom (handle m)"
  shows "single_owner (move_assign this other m)"
proof (cases "this = other")
  case True
  with inv show ?thesis by (simp add: move_assign_def)
next
  case ne: False
  from live' obtain h where other: "handle m other = Some h" by blast
  then have ho: "handle_of m other = h" by (simp add: handle_of_def)
  show ?thesis
  proof (cases "handle_of m this")
    case None
    with live have null: "handle m this = None \<or> handle m this = Some None"
      by (auto simp: handle_of_def split: option.splits)
    show ?thesis
      by (rule single_owner_transfer [OF inv null other ne])
         (simp_all add: move_assign_def ne None ho)
  next
    case (Some a)
    then have own: "handle m this = Some (Some a)" by (simp add: handle_of_Some)
    define m1 where "m1 = (handle_destroy a m)\<lparr>handle := (handle m)(this \<mapsto> None)\<rparr>"
    have inv1: "single_owner m1"
      by (rule single_owner_release [OF inv own, where h = "Some None"])
         (simp_all add: m1_def handle_destroy_fields)
    have null1: "handle m1 this = None \<or> handle m1 this = Some None"
      by (simp add: m1_def)
    have other1: "handle m1 other = Some h"
      using ne other by (simp add: m1_def)
    show ?thesis
      by (rule single_owner_transfer [OF inv1 null1 other1 ne])
         (simp_all add: move_assign_def ne Some ho m1_def handle_destroy_fields Let_def)
  qed
qed

lemma single_owner_exec:
  assumes inv: "single_owner m" and ex: "exec x m = Some m'"
  shows "single_owner m'"
proof (cases x)
  case (Call this f)
  with ex have "this \<notin> dom (handle m)" and "m' = coroutine_call this f m"
    by (simp_all split: if_splits)
  with inv show ?thesis by (simp add: single_owner_call)
next
  case (Move this other)
  with ex have "this \<notin> dom (handle m)" and "other \<in> dom (handle m)"
    and "m' = move_ctor this other m"
    by (simp_all split: if_splits)
  with inv show ?thesis by (simp add: single_owner_move_ctor)
next
  case (Move_assign this other)
  with ex have "this \<in> dom (handle m)" and "other \<in> dom (handle m)"
    and "m' = move_assign this other m"
    by (simp_all split: if_splits)
  with inv show ?thesis by (simp add: single_owner_move_assign)
next
  case (Destroy this)
  with ex have "this \<in> dom (handle m)" and "m' = dtor this m"
    by (simp_all split: if_splits)
  with inv show ?thesis by (simp add: single_owner_dtor)
qed

lemma single_owner_run:
  assumes "single_owner m" and "run xs m = Some m'"
  shows "single_owner m'"
  using assms
proof (induction xs arbitrary: m)
  case Nil
  then show ?case by simp
next
  case (Cons x xs)
  then show ?case
    by (auto split: option.splits dest: single_owner_exec)
qed

lemma dtor_releases_once:
  assumes inv: "single_owner m" and own: "handle_of m this = Some a"
  shows "a \<notin> dom (frames (dtor this m)) \<and> count_list (destroyed (dtor this m)) a = 1"
proof -
  from own have "handle m this = Some (Some a)" by (simp add: handle_of_Some)
  with single_ownerD(1,5) [OF inv] have "a \<notin> set (destroyed m)" by blast
  then show ?thesis
    using own by (simp add: dtor_def handle_destroy_fields)
qed

lemma move_assign_releases_once:
  assumes inv: "single_owner m" and own: "handle_of m this = Some a" and ne: "this \<noteq> other"
  shows "a \<notin> dom (frames (move_assign this other m)) \<and>
         count_list (destroyed (move_assign this other m)) a = 1"
proof -
  from own have "handle m this = Some (Some a)" by (simp add: handle_of_Some)
  with single_ownerD(1,5) [OF inv] have "a \<notin> set (destroyed m)" by blast
  then show ?thesis
    using own ne by (simp add: move_assign_def handle_destroy_fields Let_def)
qed

text \<open>
  C9. In every state that a program reaches from the empty store by calling coroutine
  functions, move-constructing, move-assigning and destroying \<open>Generator\<close> or \<open>Task\<close>
  objects (there is no copying step: the copy operations are deleted), every live frame
  is referred to by the handle of exactly one live object, every non-null handle of a
  live object refers to a live frame, no frame has been destroyed twice, and every frame
  ever allocated is either alive or destroyed. Move construction gives the new object
  the handle of the source and leaves the source null, destroying nothing. Move
  assignment between two different objects destroys the frame the target held, once,
  gives the target the handle of the source and leaves the source null; assigning an
  object to itself changes nothing. Destruction ends the object and, when its handle is
  not null, destroys its frame once, whatever point the coroutine is suspended at; when
  the handle is null (a moved-from object) it destroys nothing.
\<close>

theorem single_owner_of_handle:
  assumes "run ops empty_memory = Some m"
  shows "(\<forall>a. a \<in> dom (frames m) \<longrightarrow> (\<exists>!x. handle m x = Some (Some a))) \<and>
         (\<forall>x a. handle m x = Some (Some a) \<longrightarrow> a \<in> dom (frames m)) \<and>
         distinct (destroyed m) \<and>
         set (destroyed m) \<inter> dom (frames m) = {} \<and>
         dom (frames m) \<union> set (destroyed m) = {a. a < fresh m} \<and>
         (\<forall>this other m'. exec (Move this other) m = Some m' \<longrightarrow>
            handle m' this = Some (handle_of m other) \<and> handle m' other = Some None \<and>
            frames m' = frames m \<and> destroyed m' = destroyed m) \<and>
         (\<forall>this other m'. this \<noteq> other \<and> exec (Move_assign this other) m = Some m' \<longrightarrow>
            handle m' this = Some (handle_of m other) \<and> handle m' other = Some None \<and>
            (\<forall>a. handle_of m this = Some a \<longrightarrow>
               a \<notin> dom (frames m') \<and> count_list (destroyed m') a = 1)) \<and>
         (\<forall>this m'. exec (Move_assign this this) m = Some m' \<longrightarrow> m' = m) \<and>
         (\<forall>this m'. exec (Destroy this) m = Some m' \<longrightarrow>
            this \<notin> dom (handle m') \<and>
            (\<forall>a. handle_of m this = Some a \<longrightarrow>
               a \<notin> dom (frames m') \<and> count_list (destroyed m') a = 1) \<and>
            (handle_of m this = None \<longrightarrow> frames m' = frames m \<and> destroyed m' = destroyed m))"
proof -
  have inv: "single_owner m"
    using single_owner_run [OF single_owner_empty assms] .
  note I = single_ownerD [OF inv]
  have one: "\<forall>a. a \<in> dom (frames m) \<longrightarrow> (\<exists>!x. handle m x = Some (Some a))"
    using I(2) I(3) by blast
  have mv: "\<forall>this other m'. exec (Move this other) m = Some m' \<longrightarrow>
            handle m' this = Some (handle_of m other) \<and> handle m' other = Some None \<and>
            frames m' = frames m \<and> destroyed m' = destroyed m"
    by (auto simp: move_ctor_def split: if_splits)
  have ma: "\<forall>this other m'. this \<noteq> other \<and> exec (Move_assign this other) m = Some m' \<longrightarrow>
            handle m' this = Some (handle_of m other) \<and> handle m' other = Some None \<and>
            (\<forall>a. handle_of m this = Some a \<longrightarrow>
               a \<notin> dom (frames m') \<and> count_list (destroyed m') a = 1)"
  proof (intro allI impI, elim conjE)
    fix this other m'
    assume ne: "this \<noteq> other" and ex: "exec (Move_assign this other) m = Some m'"
    then have m': "m' = move_assign this other m" by (simp split: if_splits)
    have "handle m' this = Some (handle_of m other) \<and> handle m' other = Some None"
      using ne by (cases "handle_of m this")
        (simp_all add: m' move_assign_def handle_destroy_fields Let_def)
    moreover have "\<forall>a. handle_of m this = Some a \<longrightarrow>
               a \<notin> dom (frames m') \<and> count_list (destroyed m') a = 1"
      using move_assign_releases_once [OF inv _ ne] by (simp add: m')
    ultimately show "handle m' this = Some (handle_of m other) \<and> handle m' other = Some None \<and>
            (\<forall>a. handle_of m this = Some a \<longrightarrow>
               a \<notin> dom (frames m') \<and> count_list (destroyed m') a = 1)"
      by blast
  qed
  have self: "\<forall>this m'. exec (Move_assign this this) m = Some m' \<longrightarrow> m' = m"
    by (auto simp: move_assign_def split: if_splits)
  have ds: "\<forall>this m'. exec (Destroy this) m = Some m' \<longrightarrow>
            this \<notin> dom (handle m') \<and>
            (\<forall>a. handle_of m this = Some a \<longrightarrow>
               a \<notin> dom (frames m') \<and> count_list (destroyed m') a = 1) \<and>
            (handle_of m this = None \<longrightarrow> frames m' = frames m \<and> destroyed m' = destroyed m)"
  proof (intro allI impI)
    fix this m'
    assume "exec (Destroy this) m = Some m'"
    then have m': "m' = dtor this m" by (simp split: if_splits)
    have "this \<notin> dom (handle m')"
      by (simp add: m' dtor_def Let_def)
    moreover have "\<forall>a. handle_of m this = Some a \<longrightarrow>
               a \<notin> dom (frames m') \<and> count_list (destroyed m') a = 1"
      using dtor_releases_once [OF inv] by (simp add: m')
    moreover have "handle_of m this = None \<longrightarrow> frames m' = frames m \<and> destroyed m' = destroyed m"
      by (simp add: m' dtor_def)
    ultimately show "this \<notin> dom (handle m') \<and>
            (\<forall>a. handle_of m this = Some a \<longrightarrow>
               a \<notin> dom (frames m') \<and> count_list (destroyed m') a = 1) \<and>
            (handle_of m this = None \<longrightarrow> frames m' = frames m \<and> destroyed m' = destroyed m)"
      by blast
  qed
  from one I(1) I(4) I(5) I(6) mv ma self ds show ?thesis
    by blast
qed

theorem single_owner_of_handle_witness:
  "run [Call 0 (), Move 1 0, Call 2 (), Move_assign 1 2, Destroy 0] empty_memory =
     Some \<lparr>frames = [1 \<mapsto> ()], fresh = 2, handle = [1 \<mapsto> Some 1, 2 \<mapsto> None],
           destroyed = [0]\<rparr> \<and>
   (\<exists>!x. handle \<lparr>frames = [1 \<mapsto> ()], fresh = 2, handle = [1 \<mapsto> Some 1, 2 \<mapsto> None],
           destroyed = [0]\<rparr> x = Some (Some (1 :: nat))) \<and>
   distinct (destroyed \<lparr>frames = [1 \<mapsto> ()], fresh = 2,
           handle = [1 \<mapsto> Some 1, 2 \<mapsto> None], destroyed = [0]\<rparr>) \<and>
   exec (Destroy 1) \<lparr>frames = [1 \<mapsto> ()], fresh = 2,
           handle = [1 \<mapsto> Some 1, 2 \<mapsto> None], destroyed = [0]\<rparr> =
     Some (dtor 1 \<lparr>frames = [1 \<mapsto> ()], fresh = 2,
           handle = [1 \<mapsto> Some 1, 2 \<mapsto> None], destroyed = [0]\<rparr>) \<and>
   1 \<notin> dom (frames (dtor 1 \<lparr>frames = [1 \<mapsto> ()], fresh = 2,
           handle = [1 \<mapsto> Some 1, 2 \<mapsto> None], destroyed = [0]\<rparr>)) \<and>
   count_list (destroyed (dtor 1 \<lparr>frames = [1 \<mapsto> ()], fresh = 2,
           handle = [1 \<mapsto> Some 1, 2 \<mapsto> None], destroyed = [0]\<rparr>)) 1 = 1"
proof -
  let ?M = "\<lparr>frames = [1 \<mapsto> ()], fresh = 2, handle = [1 \<mapsto> Some 1, 2 \<mapsto> None],
           destroyed = [0]\<rparr> :: unit memory"
  have h: "run [Call 0 (), Move 1 0, Call 2 (), Move_assign 1 2, Destroy 0] empty_memory =
     Some ?M"
    by (simp add: empty_memory_def coroutine_call_def ctor_def move_ctor_def
        move_assign_def dtor_def handle_destroy_def handle_of_def Let_def)
  note T = single_owner_of_handle [OF h]
  have live: "1 \<in> dom (frames ?M)"
    by simp
  have ex: "exec (Destroy 1) ?M = Some (dtor 1 ?M)"
    by simp
  have own: "handle_of ?M 1 = Some 1"
    by (simp add: handle_of_def)
  from T have "\<forall>a. a \<in> dom (frames ?M) \<longrightarrow> (\<exists>!x. handle ?M x = Some (Some a))"
    by (rule conjunct1)
  then have "1 \<in> dom (frames ?M) \<longrightarrow> (\<exists>!x. handle ?M x = Some (Some 1))"
    by (rule spec)
  then have one: "\<exists>!x. handle ?M x = Some (Some 1)"
    using live by (rule mp)
  from T have dist: "distinct (destroyed ?M)"
    by (elim conjE)
  from T have "\<forall>this m'. exec (Destroy this) ?M = Some m' \<longrightarrow>
            this \<notin> dom (handle m') \<and>
            (\<forall>a. handle_of ?M this = Some a \<longrightarrow>
               a \<notin> dom (frames m') \<and> count_list (destroyed m') a = 1) \<and>
            (handle_of ?M this = None \<longrightarrow> frames m' = frames ?M \<and> destroyed m' = destroyed ?M)"
    by (elim conjE)
  then have "exec (Destroy 1) ?M = Some (dtor 1 ?M) \<longrightarrow>
            1 \<notin> dom (handle (dtor 1 ?M)) \<and>
            (\<forall>a. handle_of ?M 1 = Some a \<longrightarrow>
               a \<notin> dom (frames (dtor 1 ?M)) \<and> count_list (destroyed (dtor 1 ?M)) a = 1) \<and>
            (handle_of ?M 1 = None \<longrightarrow>
               frames (dtor 1 ?M) = frames ?M \<and> destroyed (dtor 1 ?M) = destroyed ?M)"
    by (elim allE)
  then have "\<forall>a. handle_of ?M 1 = Some a \<longrightarrow>
               a \<notin> dom (frames (dtor 1 ?M)) \<and> count_list (destroyed (dtor 1 ?M)) a = 1"
    using ex by blast
  then have "handle_of ?M 1 = Some 1 \<longrightarrow>
               1 \<notin> dom (frames (dtor 1 ?M)) \<and> count_list (destroyed (dtor 1 ?M)) 1 = 1"
    by (rule spec)
  then have once: "1 \<notin> dom (frames (dtor 1 ?M)) \<and> count_list (destroyed (dtor 1 ?M)) 1 = 1"
    using own by (rule mp)
  from h one dist ex once show ?thesis
    by (intro conjI) (elim conjE, assumption)+
qed

end
